theory Spec2Isabelle
  imports Main "HOL-Library.Multiset"
begin

section \<open>The two servers\<close>

text \<open>
  The repository holds two variants of one game server. In the first a drawn card is kept
  by the server in a staging slot, \<open>currentDrawnCard\<close>, until it is swapped into the
  hand; its functions and handlers keep their names here. The second is \<open>server.js\<close>,
  where the drawn card is sent to the client, which sends a card back in \<open>replace_card\<close>;
  its functions and handlers are modelled under names that end in \<open>_B\<close>.
\<close>

section \<open>JavaScript numbers\<close>

text \<open>
  The scores of the game are JavaScript numbers. Every number the handlers compute is an
  integer, \<open>NaN\<close> (the result of \<open>parseInt\<close> on a string with no digits) or an
  infinity (\<open>Math.min()\<close> and \<open>Math.max()\<close> of no arguments). Integers are
  modelled exactly, as \<open>int\<close>. The doubles of JavaScript are exact on the integers up to
  2 to the power 53 in absolute value, and round beyond: the model follows the code as
  long as the numbers stay in that range, as the scores and totals of hands of deck cards
  do, and not for the numbers that a rank of twenty digits would give.
\<close>

datatype jsnum = Fin int | PosInf | NegInf | NaN

text \<open>The operator \<open>+\<close> on numbers.\<close>

fun js_add :: "jsnum \<Rightarrow> jsnum \<Rightarrow> jsnum" where
  "js_add (Fin a) (Fin b) = Fin (a + b)"
| "js_add NaN y = NaN"
| "js_add x NaN = NaN"
| "js_add PosInf NegInf = NaN"
| "js_add NegInf PosInf = NaN"
| "js_add PosInf y = PosInf"
| "js_add x PosInf = PosInf"
| "js_add NegInf y = NegInf"
| "js_add x NegInf = NegInf"

text \<open>The operator \<open><\<close>: false as soon as one side is \<open>NaN\<close>.\<close>

fun js_lt :: "jsnum \<Rightarrow> jsnum \<Rightarrow> bool" where
  "js_lt (Fin a) (Fin b) = (a < b)"
| "js_lt NaN y = False"
| "js_lt x NaN = False"
| "js_lt x NegInf = False"
| "js_lt PosInf y = False"
| "js_lt NegInf y = True"
| "js_lt x PosInf = True"

text \<open>The operator \<open>===\<close> on numbers: \<open>NaN\<close> is not equal to itself.\<close>

definition js_eq :: "jsnum \<Rightarrow> jsnum \<Rightarrow> bool" where
  "js_eq x y = (x \<noteq> NaN \<and> x = y)"

text \<open>The operator \<open><=\<close>.\<close>

definition js_le :: "jsnum \<Rightarrow> jsnum \<Rightarrow> bool" where
  "js_le x y = (js_lt x y \<or> js_eq x y)"

text \<open>\<open>Math.min\<close> and \<open>Math.max\<close> of a spread list of numbers.\<close>

fun js_min2 :: "jsnum \<Rightarrow> jsnum \<Rightarrow> jsnum" where
  "js_min2 NaN y = NaN"
| "js_min2 x NaN = NaN"
| "js_min2 x y = (if js_lt y x then y else x)"

fun js_max2 :: "jsnum \<Rightarrow> jsnum \<Rightarrow> jsnum" where
  "js_max2 NaN y = NaN"
| "js_max2 x NaN = NaN"
| "js_max2 x y = (if js_lt x y then y else x)"

definition Math_min :: "jsnum list \<Rightarrow> jsnum" where
  "Math_min xs = foldl js_min2 PosInf xs"

definition Math_max :: "jsnum list \<Rightarrow> jsnum" where
  "Math_max xs = foldl js_max2 NegInf xs"

subsection \<open>parseInt\<close>

text \<open>
  \<open>parseInt(s)\<close> with no radix: leading white space is skipped,
  then an optional sign,
  then an optional \<open>0x\<close> or \<open>0X\<close> (which selects radix 16), then the longest run of
  digits of the radix. No digit gives \<open>NaN\<close>. The white space covered is that of the
  ASCII range (not U+00A0 and the like), and the value of the digits is exact, where
  \<open>parseInt\<close> rounds it to a double: the two agree on the ranks of a deck, and on every
  ASCII string whose digits give a value below 2 to the power 53.
\<close>

definition is_ws :: "char \<Rightarrow> bool" where
  "is_ws c = (c \<in> set [CHR '' '', CHR 0x09, CHR 0x0A, CHR 0x0B, CHR 0x0C, CHR 0x0D])"

definition digit_val :: "char \<Rightarrow> nat option" where
  "digit_val c =
     (let n = (of_char c :: nat) in
      if 48 \<le> n \<and> n \<le> 57 then Some (n - 48)
      else if 97 \<le> n \<and> n \<le> 122 then Some (n - 87)
      else if 65 \<le> n \<and> n \<le> 90 then Some (n - 55)
      else None)"

definition is_digit :: "nat \<Rightarrow> char \<Rightarrow> bool" where
  "is_digit radix c = (case digit_val c of None \<Rightarrow> False | Some d \<Rightarrow> d < radix)"

definition digits_value :: "nat \<Rightarrow> string \<Rightarrow> nat" where
  "digits_value radix ds = foldl (\<lambda>acc c. acc * radix + the (digit_val c)) 0 ds"

definition parseInt :: "string \<Rightarrow> jsnum" where
  "parseInt s =
     (let s1 = dropWhile is_ws s;
          neg = (case s1 of [] \<Rightarrow> False | c # _ \<Rightarrow> c = CHR ''-'');
          s2 = (case s1 of [] \<Rightarrow> [] | c # t \<Rightarrow> if c = CHR ''-'' \<or> c = CHR ''+'' then t else s1);
          hex = (case s2 of c # d # _ \<Rightarrow> c = CHR ''0'' \<and> (d = CHR ''x'' \<or> d = CHR ''X'') | _ \<Rightarrow> False);
          radix = (if hex then 16 else 10);
          s3 = (if hex then drop 2 s2 else s2);
          ds = takeWhile (is_digit radix) s3
      in if ds = [] then NaN
         else Fin ((if neg then - 1 else 1) * int (digits_value radix ds)))"

section \<open>Cards\<close>

datatype suit = Spades | Clubs | Hearts | Diamonds | JokerSuit

record card =
  suit :: suit
  rank :: string
  id_card :: string

text \<open>
  An entry of a hand is a card, or \<open>undefined\<close> when it was popped from an empty deck:
  \<open>None\<close>.
\<close>

type_synonym hand = "card option list"

subsection \<open>calculateScore\<close>

text \<open>The callback of \<open>hand.reduce\<close> in \<open>calculateScore\<close>, face cards worth 10.\<close>

definition score_step :: "string \<Rightarrow> jsnum \<Rightarrow> card option \<Rightarrow> jsnum" where
  "score_step openJokerRank total_acc c =
     (case c of
        None \<Rightarrow> total_acc
      | Some crd \<Rightarrow>
          if rank crd = ''Joker'' \<or> rank crd = openJokerRank then js_add total_acc (Fin 0)
          else if rank crd \<in> set [''J'', ''Q'', ''K''] then js_add total_acc (Fin 10)
          else if rank crd = ''A'' then js_add total_acc (Fin 1)
          else js_add total_acc (parseInt (rank crd)))"

definition calculateScore :: "hand \<Rightarrow> string \<Rightarrow> jsnum" where
  "calculateScore hand openJokerRank = foldl (score_step openJokerRank) (Fin 0) hand"

text \<open>The same function in \<open>server.js\<close>, where a face card is worth 15.\<close>

definition score_step_B :: "string \<Rightarrow> jsnum \<Rightarrow> card option \<Rightarrow> jsnum" where
  "score_step_B openJokerRank total_acc c =
     (case c of
        None \<Rightarrow> total_acc
      | Some crd \<Rightarrow>
          if rank crd = ''Joker'' \<or> rank crd = openJokerRank then js_add total_acc (Fin 0)
          else if rank crd \<in> set [''J'', ''Q'', ''K''] then js_add total_acc (Fin 15)
          else if rank crd = ''A'' then js_add total_acc (Fin 1)
          else js_add total_acc (parseInt (rank crd)))"

definition calculateScore_B :: "hand \<Rightarrow> string \<Rightarrow> jsnum" where
  "calculateScore_B hand openJokerRank = foldl (score_step_B openJokerRank) (Fin 0) hand"


section \<open>Decks\<close>

datatype error = TypeError

text \<open>
  \<open>createDeck\<close> calls \<open>Math.random\<close>: once for the id of each of the 52 ranked cards,
  and in the comparator of the final \<open>sort\<close>. The outcome of these calls is a parameter
  of the model: \<open>random_id g k\<close> is the string
  \<open>Math.random().toString(36).substr(2, 9)\<close> of the \<open>k\<close>-th ranked card, and
  \<open>sort_random g\<close> is what \<open>sort(() => Math.random() - 0.5)\<close> makes of the array.
\<close>

record rng =
  random_id :: "nat \<Rightarrow> string"
  sort_random :: "card list \<Rightarrow> card list"

definition suits :: "suit list" where
  "suits = [Spades, Clubs, Hearts, Diamonds]"

definition ranks :: "string list" where
  "ranks = [''A'', ''2'', ''3'', ''4'', ''5''] @ [''6'', ''7'', ''8'', ''9'', ''10''] @ [''J'', ''Q'', ''K'']"

text \<open>The two nested loops: the card of suit \<open>i\<close> and rank \<open>j\<close> is pushed at position \<open>13 * i + j\<close>.\<close>

definition ranked_cards :: "rng \<Rightarrow> card list" where
  "ranked_cards g =
     concat (map (\<lambda>i. map (\<lambda>j. \<lparr>suit = suits ! i, rank = ranks ! j,
                                  id_card = random_id g (i * length ranks + j)\<rparr>)
                          [0..<length ranks])
                 [0..<length suits])"

definition joker :: "string \<Rightarrow> card" where
  "joker i = \<lparr>suit = JokerSuit, rank = ''Joker'', id_card = i\<rparr>"

definition createDeck :: "rng \<Rightarrow> card list" where
  "createDeck g = sort_random g (ranked_cards g @ [joker ''Joker1'', joker ''Joker2''])"

text \<open>\<open>createDeck\<close> of \<open>server.js\<close>: one joker.\<close>

definition createDeck_B :: "rng \<Rightarrow> card list" where
  "createDeck_B g = sort_random g (ranked_cards g @ [joker ''Joker1''])"

text \<open>
  The final \<open>sort\<close> of \<open>createDeck\<close> permutes the array: it loses no card and makes none.
\<close>

definition sort_permutes :: "rng \<Rightarrow> bool" where
  "sort_permutes g = (\<forall>d. mset (sort_random g d) = mset d)"

text \<open>\<open>deck.pop()\<close>: the last element, \<open>undefined\<close> on an empty array.\<close>

definition pop :: "'a list \<Rightarrow> 'a option \<times> 'a list" where
  "pop xs = (if xs = [] then (None, []) else (Some (last xs), butlast xs))"

section \<open>Players and rooms\<close>

record player =
  id_player :: string
  username :: string
  hand :: hand
  totalScore :: jsnum
  eliminated :: bool
  currentDrawnCard :: "card option"

datatype status = LOBBY | PLAYING | WINNER

record room =
  roomId :: string
  players :: "player list"
  deck :: "card list"
  openJoker :: "card option"
  turn :: int
  status :: status
  hostId :: string
  roundLimit :: int
  currentRound :: int

text \<open>The global \<open>rooms\<close> object, by room id.\<close>

type_synonym registry = "string \<rightharpoonup> room"

datatype signal = Room_data | Error_msg string | Celebration | Penalty | Player_eliminated string

subsection \<open>Array helpers\<close>

text \<open>\<open>xs[i]\<close>: \<open>undefined\<close> outside the array.\<close>

definition nth_opt :: "'a list \<Rightarrow> int \<Rightarrow> 'a option" where
  "nth_opt xs i = (if 0 \<le> i \<and> i < int (length xs) then Some (xs ! nat i) else None)"

text \<open>\<open>xs.findIndex(P)\<close>: \<open>-1\<close> when no element satisfies \<open>P\<close>.\<close>

fun findIndex :: "('a \<Rightarrow> bool) \<Rightarrow> 'a list \<Rightarrow> int" where
  "findIndex P [] = - 1"
| "findIndex P (x # xs) =
     (if P x then 0 else (let i = findIndex P xs in if i < 0 then - 1 else i + 1))"

text \<open>
  \<open>xs.find(P)\<close> followed by an assignment to a field of the object found: the first
  element that satisfies \<open>P\<close> is updated in place.
\<close>

fun update_first :: "('a \<Rightarrow> bool) \<Rightarrow> ('a \<Rightarrow> 'a) \<Rightarrow> 'a list \<Rightarrow> 'a list" where
  "update_first P f [] = []"
| "update_first P f (x # xs) = (if P x then f x # xs else x # update_first P f xs)"

text \<open>The operator \<open>%\<close> on integers: the sign of the result is the sign of the dividend.\<close>

definition js_rem :: "int \<Rightarrow> int \<Rightarrow> int" where
  "js_rem a b = sgn a * (\<bar>a\<bar> mod \<bar>b\<bar>)"

section \<open>The handlers\<close>

text \<open>
  Each handler runs for a socket, whose id is the argument \<open>sid\<close>. A handler that throws
  (a property of \<open>undefined\<close> or \<open>null\<close> is read) returns \<open>Inl TypeError\<close>. The
  broadcast of the room snapshot is modelled for \<open>declare_show\<close> only, together with the
  signals sent to the caller.
\<close>

subsection \<open>create_room and join_room\<close>

definition new_player :: "string \<Rightarrow> string \<Rightarrow> player" where
  "new_player sid name =
     \<lparr>id_player = sid, username = name, hand = [], totalScore = Fin 0, eliminated = False,
      currentDrawnCard = None\<rparr>"

text \<open>\<open>parseInt(roundLimit) || 5\<close>: 5 when the parse is \<open>NaN\<close> or 0.\<close>

definition parse_roundLimit :: "string \<Rightarrow> int" where
  "parse_roundLimit s = (case parseInt s of Fin n \<Rightarrow> if n = 0 then 5 else n | _ \<Rightarrow> 5)"

text \<open>The room code \<open>rid\<close> is the random string the handler draws.\<close>

definition create_room :: "string \<Rightarrow> string \<Rightarrow> string \<Rightarrow> string \<Rightarrow> registry \<Rightarrow> registry" where
  "create_room rid sid name limit rooms =
     rooms(rid \<mapsto>
       \<lparr>roomId = rid, players = [new_player sid name], deck = [], openJoker = None, turn = 0,
        status = LOBBY, hostId = sid, roundLimit = parse_roundLimit limit, currentRound = 1\<rparr>)"

definition join_room :: "string \<Rightarrow> string \<Rightarrow> string \<Rightarrow> registry \<Rightarrow> registry" where
  "join_room rid sid name rooms =
     (case rooms rid of
        None \<Rightarrow> rooms
      | Some room \<Rightarrow>
          if status room \<noteq> LOBBY \<and> status room \<noteq> WINNER then rooms
          else rooms(rid \<mapsto> room\<lparr>players := players room @ [new_player sid name]\<rparr>))"

subsection \<open>start_game\<close>

text \<open>The \<open>forEach\<close> that deals: the deck is threaded through the players in order.\<close>

fun deal :: "card list \<Rightarrow> player list \<Rightarrow> player list \<times> card list" where
  "deal d [] = ([], d)"
| "deal d (p # ps) =
     (if \<not> eliminated p then
        (let (c1, d1) = pop d; (c2, d2) = pop d1; (c3, d3) = pop d2;
             (ps', d') = deal d3 ps
         in (p\<lparr>currentDrawnCard := None, hand := [c1, c2, c3]\<rparr> # ps', d'))
      else
        (let (ps', d') = deal d ps
         in (p\<lparr>currentDrawnCard := None, hand := []\<rparr> # ps', d')))"

definition start_game :: "rng \<Rightarrow> string \<Rightarrow> room \<Rightarrow> room" where
  "start_game g sid room =
     (if hostId room \<noteq> sid then room
      else
        (let (oj, d1) = pop (createDeck g);
             (ps, d2) = deal d1 (players room)
         in room\<lparr>deck := d2, openJoker := oj, status := PLAYING, players := ps,
                 turn := findIndex (\<lambda>p. \<not> eliminated p) ps\<rparr>))"

subsection \<open>draw_card\<close>

definition draw_card :: "rng \<Rightarrow> string \<Rightarrow> room \<Rightarrow> error + room" where
  "draw_card g sid room =
     (case nth_opt (players room) (turn room) of
        None \<Rightarrow> Inl TypeError
      | Some current \<Rightarrow>
          if id_player current \<noteq> sid then Inr room
          else
            (let d = (if deck room = [] then createDeck g else deck room);
                 (crd, d') = pop d
             in Inr (room\<lparr>deck := d',
                          players := update_first (\<lambda>p. id_player p = sid)
                                       (\<lambda>p. p\<lparr>currentDrawnCard := crd\<rparr>) (players room)\<rparr>)))"

subsection \<open>replace_card\<close>

text \<open>
  The loop that passes the turn: \<open>nextTurn\<close> moves on while the player there is
  eliminated and fewer than \<open>players.length\<close> attempts were made.
\<close>

function skip_eliminated :: "player list \<Rightarrow> int \<Rightarrow> nat \<Rightarrow> error + int" where
  "skip_eliminated ps nextTurn attempts =
     (case nth_opt ps nextTurn of
        None \<Rightarrow> Inl TypeError
      | Some p \<Rightarrow>
          if eliminated p \<and> attempts < length ps
          then skip_eliminated ps (js_rem (nextTurn + 1) (int (length ps))) (attempts + 1)
          else Inr nextTurn)"
  by pat_completeness auto
termination
  by (relation "measure (\<lambda>(ps, nextTurn, attempts). length ps - attempts)") auto

text \<open>
  The callback of \<open>hand.map\<close> reads \<open>c.id\<close> of every entry, and throws on an
  \<open>undefined\<close> one.
\<close>

definition swap_card :: "string \<Rightarrow> card \<Rightarrow> hand \<Rightarrow> error + hand" where
  "swap_card cardToDiscardId drawn h =
     (if None \<in> set h then Inl TypeError
      else Inr (map (\<lambda>c. if id_card (the c) = cardToDiscardId then Some drawn else c) h))"

definition replace_card :: "string \<Rightarrow> string \<Rightarrow> room \<Rightarrow> error + room" where
  "replace_card sid cardToDiscardId room =
     (case find (\<lambda>p. id_player p = sid) (players room) of
        None \<Rightarrow> Inr room
      | Some player \<Rightarrow>
          (case currentDrawnCard player of
             None \<Rightarrow> Inr room
           | Some drawn \<Rightarrow>
               (case swap_card cardToDiscardId drawn (hand player) of
                  Inl e \<Rightarrow> Inl e
                | Inr h \<Rightarrow>
                    (let ps = update_first (\<lambda>p. id_player p = sid)
                                (\<lambda>p. p\<lparr>hand := h, currentDrawnCard := None\<rparr>) (players room)
                     in case skip_eliminated ps
                               (js_rem (turn room + 1) (int (length ps))) 0 of
                          Inl e \<Rightarrow> Inl e
                        | Inr nextTurn \<Rightarrow> Inr (room\<lparr>players := ps, turn := nextTurn\<rparr>)))))"

subsection \<open>declare_show\<close>

text \<open>The round counter and the elimination, after the show is resolved.\<close>

definition round_and_elimination :: "room \<Rightarrow> room" where
  "round_and_elimination room =
     (let room1 =
            (if roundLimit room \<le> currentRound room then
               (let active = filter (\<lambda>p. \<not> eliminated p) (players room);
                    highestScore = Math_max (map totalScore active)
                in room\<lparr>players :=
                          map (\<lambda>p. if \<not> eliminated p \<and> js_eq (totalScore p) highestScore
                                    then p\<lparr>eliminated := True\<rparr> else p) (players room),
                        currentRound := 1\<rparr>)
             else room\<lparr>currentRound := currentRound room + 1\<rparr>);
          remainingPlayers = filter (\<lambda>p. \<not> eliminated p) (players room1)
      in room1\<lparr>status := (if length remainingPlayers \<le> 1 then WINNER else LOBBY)\<rparr>)"

text \<open>
  With \<open>openJoker\<close> still \<open>null\<close> the handler throws: at \<open>room.openJoker.rank\<close> when a
  player is active, and at \<open>scores.find(...).score\<close> when none is.
\<close>

definition declare_show :: "string \<Rightarrow> room \<Rightarrow> error + (signal list \<times> room)" where
  "declare_show sid room =
     (case openJoker room of
        None \<Rightarrow> Inl TypeError
      | Some oj \<Rightarrow>
          (let activePlayers = filter (\<lambda>p. \<not> eliminated p) (players room);
               scores = map (\<lambda>p. (id_player p, calculateScore (hand p) (rank oj))) activePlayers
           in case find (\<lambda>s. fst s = sid) scores of
                None \<Rightarrow> Inl TypeError
              | Some s \<Rightarrow>
                  (let callerScore = snd s;
                       otherScores = map snd (filter (\<lambda>s. fst s \<noteq> sid) scores);
                       minOtherScore = Math_min otherScores
                   in if js_lt callerScore minOtherScore then
                        Inr ([Celebration, Room_data],
                             round_and_elimination (room\<lparr>players :=
                               map (\<lambda>p. if \<not> eliminated p \<and> id_player p \<noteq> sid
                                         then p\<lparr>totalScore := js_add (totalScore p)
                                                  (calculateScore (hand p) (rank oj))\<rparr>
                                         else p) (players room)\<rparr>))
                      else
                        Inr ([Penalty, Room_data],
                             round_and_elimination (room\<lparr>players :=
                               update_first (\<lambda>p. id_player p = sid)
                                 (\<lambda>p. p\<lparr>totalScore := js_add (totalScore p)
                                          (js_add callerScore (Fin 25))\<rparr>)
                                 (players room)\<rparr>)))))"

subsection \<open>declare_show of server.js\<close>

text \<open>
  The \<open>forEach\<close> that looks for the player to eliminate: the state is \<open>highestScore\<close> and
  the index of \<open>playerToEliminate\<close>, if any.
\<close>

fun pick_highest :: "jsnum \<times> nat option \<Rightarrow> nat \<Rightarrow> player list \<Rightarrow> jsnum \<times> nat option" where
  "pick_highest st i [] = st"
| "pick_highest st i (p # ps) =
     (if \<not> eliminated p \<and> js_lt (fst st) (totalScore p)
      then pick_highest (totalScore p, Some i) (Suc i) ps
      else pick_highest st (Suc i) ps)"

definition round_and_elimination_B :: "room \<Rightarrow> signal list \<times> room" where
  "round_and_elimination_B room =
     (if roundLimit room \<le> currentRound room then
        (case snd (pick_highest (Fin (- 1), None) 0 (players room)) of
           None \<Rightarrow> ([Room_data], room\<lparr>currentRound := 1, status := LOBBY\<rparr>)
         | Some i \<Rightarrow>
             ([Player_eliminated (username (players room ! i)), Room_data],
              room\<lparr>players := (players room)[i := (players room ! i)\<lparr>eliminated := True\<rparr>],
                   currentRound := 1, status := LOBBY\<rparr>))
      else ([Room_data], room\<lparr>currentRound := currentRound room + 1, status := LOBBY\<rparr>))"

definition declare_show_B :: "string \<Rightarrow> room \<Rightarrow> error + (signal list \<times> room)" where
  "declare_show_B sid room =
     (case openJoker room of
        None \<Rightarrow> Inl TypeError
      | Some oj \<Rightarrow>
          (let activePlayers = filter (\<lambda>p. \<not> eliminated p) (players room);
               scores = map (\<lambda>p. (id_player p, calculateScore_B (hand p) (rank oj))) activePlayers
           in case find (\<lambda>s. fst s = sid) scores of
                None \<Rightarrow> Inl TypeError
              | Some s \<Rightarrow>
                  (let callerScore = snd s;
                       otherScores = map snd (filter (\<lambda>s. fst s \<noteq> sid) scores);
                       minOtherScore = Math_min otherScores
                   in if js_lt callerScore minOtherScore then
                        (let (sigs, room') = round_and_elimination_B (room\<lparr>players :=
                               map (\<lambda>p. if \<not> eliminated p \<and> id_player p \<noteq> sid
                                         then p\<lparr>totalScore := js_add (totalScore p)
                                                  (calculateScore_B (hand p) (rank oj))\<rparr>
                                         else p) (players room)\<rparr>)
                         in Inr (Celebration # sigs, room'))
                      else
                        Inr (round_and_elimination_B (room\<lparr>players :=
                               update_first (\<lambda>p. id_player p = sid)
                                 (\<lambda>p. p\<lparr>totalScore := js_add (totalScore p)
                                          (Math_max [callerScore, Fin 25])\<rparr>)
                                 (players room)\<rparr>)))))"

subsection \<open>disconnect\<close>

text \<open>The body of the loop over the rooms: \<open>None\<close> when the room is deleted.\<close>

definition disconnect_room :: "string \<Rightarrow> room \<Rightarrow> room option" where
  "disconnect_room sid room =
     (let playerIndex = findIndex (\<lambda>p. id_player p = sid) (players room)
      in if playerIndex \<noteq> - 1 then
           (let ps = take (nat playerIndex) (players room) @ drop (nat playerIndex + 1) (players room);
                room1 = room\<lparr>players := ps\<rparr>;
                room2 = (if hostId room1 = sid \<and> 0 < length ps
                         then room1\<lparr>hostId := id_player (ps ! 0)\<rparr> else room1)
            in if length ps = 0 then None else Some room2)
         else Some room)"

definition disconnect :: "string \<Rightarrow> registry \<Rightarrow> registry" where
  "disconnect sid rooms =
     (\<lambda>rid. case rooms rid of None \<Rightarrow> None | Some room \<Rightarrow> disconnect_room sid room)"


subsection \<open>disconnecting of server.js\<close>

text \<open>
  The handler loops over \<open>socket.rooms\<close>, the rooms that the socket has joined (its own
  id among them): the argument \<open>joined\<close>.
\<close>

definition disconnecting_B :: "string \<Rightarrow> string set \<Rightarrow> registry \<Rightarrow> registry" where
  "disconnecting_B sid joined rooms =
     (\<lambda>rid. if rid \<in> joined then
              (case rooms rid of
                 None \<Rightarrow> None
               | Some room \<Rightarrow>
                   (let ps = filter (\<lambda>p. id_player p \<noteq> sid) (players room)
                    in if length ps = 0 then None else Some (room\<lparr>players := ps\<rparr>)))
            else rooms rid)"

subsection \<open>The other handlers of server.js\<close>

text \<open>
  The rooms of \<open>server.js\<close> have no \<open>roomId\<close> and its players no
  \<open>currentDrawnCard\<close>. In the records, which both variants share, these two fields are
  set when a room or a player is made and no handler of \<open>server.js\<close> reads or writes
  them. \<open>join_room\<close> admits a player in the lobby only.
\<close>

definition create_room_B :: "string \<Rightarrow> string \<Rightarrow> string \<Rightarrow> string \<Rightarrow> registry \<Rightarrow> registry" where
  "create_room_B rid sid name limit rooms =
     rooms(rid \<mapsto>
       \<lparr>roomId = rid, players = [new_player sid name], deck = [], openJoker = None, turn = 0,
        status = LOBBY, hostId = sid, roundLimit = parse_roundLimit limit, currentRound = 1\<rparr>)"

definition join_room_B :: "string \<Rightarrow> string \<Rightarrow> string \<Rightarrow> registry \<Rightarrow> registry" where
  "join_room_B rid sid name rooms =
     (case rooms rid of
        None \<Rightarrow> rooms
      | Some room \<Rightarrow>
          if status room \<noteq> LOBBY then rooms
          else rooms(rid \<mapsto> room\<lparr>players := players room @ [new_player sid name]\<rparr>))"

text \<open>\<open>start_game\<close>: the turn is set before the \<open>forEach\<close> that deals.\<close>

fun deal_B :: "card list \<Rightarrow> player list \<Rightarrow> player list \<times> card list" where
  "deal_B d [] = ([], d)"
| "deal_B d (p # ps) =
     (if \<not> eliminated p then
        (let (c1, d1) = pop d; (c2, d2) = pop d1; (c3, d3) = pop d2;
             (ps', d') = deal_B d3 ps
         in (p\<lparr>hand := [c1, c2, c3]\<rparr> # ps', d'))
      else
        (let (ps', d') = deal_B d ps
         in (p\<lparr>hand := []\<rparr> # ps', d')))"

definition start_game_B :: "rng \<Rightarrow> string \<Rightarrow> room \<Rightarrow> room" where
  "start_game_B g sid room =
     (if hostId room \<noteq> sid then room
      else
        (let (oj, d1) = pop (createDeck_B g);
             first = findIndex (\<lambda>p. \<not> eliminated p) (players room);
             (ps, d2) = deal_B d1 (players room)
         in room\<lparr>deck := d2, openJoker := oj, status := PLAYING, turn := first,
                 players := ps\<rparr>))"

text \<open>
  \<open>draw_card\<close> pops a card and sends it to the caller, who alone holds it then; an
  empty deck is not rebuilt.
\<close>

definition draw_card_B :: "string \<Rightarrow> room \<Rightarrow> error + room" where
  "draw_card_B sid room =
     (case nth_opt (players room) (turn room) of
        None \<Rightarrow> Inl TypeError
      | Some current \<Rightarrow>
          if id_player current \<noteq> sid then Inr room
          else (let (crd, d') = pop (deck room) in Inr (room\<lparr>deck := d'\<rparr>)))"

text \<open>
  The loop of \<open>replace_card\<close> that passes the turn has no bound: when every player is
  eliminated it never ends, and the handler does not return (\<open>None\<close>).
\<close>

partial_function (option) skip_eliminated_B :: "player list \<Rightarrow> int \<Rightarrow> (error + int) option" where
  "skip_eliminated_B ps nextTurn =
     (case nth_opt ps nextTurn of
        None \<Rightarrow> Some (Inl TypeError)
      | Some p \<Rightarrow>
          if eliminated p
          then skip_eliminated_B ps (js_rem (nextTurn + 1) (int (length ps)))
          else Some (Inr nextTurn))"

declare skip_eliminated_B.simps [code]

text \<open>
  \<open>replace_card\<close> takes the new card from the client, as it comes: \<open>newCard\<close> is any
  card, with any rank, or nothing (\<open>None\<close>, for \<open>null\<close> and \<open>undefined\<close>). There is
  no guard: a socket with no player in the room makes the handler throw.
\<close>

definition swap_card_B :: "string \<Rightarrow> card option \<Rightarrow> hand \<Rightarrow> error + hand" where
  "swap_card_B cardToDiscardId newCard h =
     (if None \<in> set h then Inl TypeError
      else Inr (map (\<lambda>c. if id_card (the c) = cardToDiscardId then newCard else c) h))"

definition replace_card_B ::
  "string \<Rightarrow> string \<Rightarrow> card option \<Rightarrow> room \<Rightarrow> (error + room) option" where
  "replace_card_B sid cardToDiscardId newCard room =
     (case find (\<lambda>p. id_player p = sid) (players room) of
        None \<Rightarrow> Some (Inl TypeError)
      | Some player \<Rightarrow>
          (case swap_card_B cardToDiscardId newCard (hand player) of
             Inl e \<Rightarrow> Some (Inl e)
           | Inr h \<Rightarrow>
               (let ps = update_first (\<lambda>p. id_player p = sid) (\<lambda>p. p\<lparr>hand := h\<rparr>)
                           (players room)
                in case skip_eliminated_B ps (js_rem (turn room + 1) (int (length ps))) of
                     None \<Rightarrow> None
                   | Some (Inl e) \<Rightarrow> Some (Inl e)
                   | Some (Inr nextTurn) \<Rightarrow>
                       Some (Inr (room\<lparr>players := ps, turn := nextTurn\<rparr>)))))"

section \<open>Runs of the server\<close>

text \<open>
  The events a server receives, each with the id of the socket that sends it (the last
  string argument of the room events; the room id comes first). For \<open>create_room\<close>
  the first argument is the room code that the handler draws at random.
\<close>

datatype event =
    Create_room string string string string
  | Join_room string string string
  | Start_game string string
  | Draw_card string string
  | Replace_card string string string
  | Declare_show string string
  | Disconnect string

fun step :: "rng \<Rightarrow> event \<Rightarrow> registry \<Rightarrow> error + registry" where
  "step g (Create_room rid sid name limit) rooms = Inr (create_room rid sid name limit rooms)"
| "step g (Join_room rid sid name) rooms = Inr (join_room rid sid name rooms)"
| "step g (Start_game rid sid) rooms =
     (case rooms rid of
        None \<Rightarrow> Inr rooms
      | Some room \<Rightarrow> Inr (rooms(rid \<mapsto> start_game g sid room)))"
| "step g (Draw_card rid sid) rooms =
     (case rooms rid of
        None \<Rightarrow> Inr rooms
      | Some room \<Rightarrow>
          (case draw_card g sid room of
             Inl e \<Rightarrow> Inl e
           | Inr room' \<Rightarrow> Inr (rooms(rid \<mapsto> room'))))"
| "step g (Replace_card rid sid cardToDiscardId) rooms =
     (case rooms rid of
        None \<Rightarrow> Inr rooms
      | Some room \<Rightarrow>
          (case replace_card sid cardToDiscardId room of
             Inl e \<Rightarrow> Inl e
           | Inr room' \<Rightarrow> Inr (rooms(rid \<mapsto> room'))))"
| "step g (Declare_show rid sid) rooms =
     (case rooms rid of
        None \<Rightarrow> Inr rooms
      | Some room \<Rightarrow>
          (case declare_show sid room of
             Inl e \<Rightarrow> Inl e
           | Inr (sigs, room') \<Rightarrow> Inr (rooms(rid \<mapsto> room'))))"
| "step g (Disconnect sid) rooms = Inr (disconnect sid rooms)"

fun run :: "rng \<Rightarrow> event list \<Rightarrow> registry \<Rightarrow> error + registry" where
  "run g [] rooms = Inr rooms"
| "run g (ev # evs) rooms =
     (case step g ev rooms of Inl e \<Rightarrow> Inl e | Inr rooms' \<Rightarrow> run g evs rooms')"

text \<open>The room with a given id after a run, if the run did not throw.\<close>

definition room_of :: "error + registry \<Rightarrow> string \<Rightarrow> room option" where
  "room_of r rid = (case r of Inl e \<Rightarrow> None | Inr rooms \<Rightarrow> rooms rid)"

text \<open>
  The registries that the server can be in: it starts with no room, and serves one event
  after the other, as long as no handler throws. Every sort of a new deck permutes it.
\<close>

inductive reachable :: "registry \<Rightarrow> bool" where
  initial: "reachable Map.empty"
| after_event:
    "reachable rooms \<Longrightarrow> sort_permutes g \<Longrightarrow> step g ev rooms = Inr rooms' \<Longrightarrow> reachable rooms'"

subsection \<open>Runs of server.js\<close>

text \<open>
  The events of \<open>server.js\<close>: \<open>replace_card\<close> carries the card that the client
  sends, and \<open>disconnecting\<close> the set \<open>socket.rooms\<close>. A step is \<open>None\<close> when the
  handler does not return.
\<close>

datatype event_B =
    Create_room_B string string string string
  | Join_room_B string string string
  | Start_game_B string string
  | Draw_card_B string string
  | Replace_card_B string string string "card option"
  | Declare_show_B string string
  | Disconnecting_B string "string set"

fun step_B :: "rng \<Rightarrow> event_B \<Rightarrow> registry \<Rightarrow> (error + registry) option" where
  "step_B g (Create_room_B rid sid name limit) rooms =
     Some (Inr (create_room_B rid sid name limit rooms))"
| "step_B g (Join_room_B rid sid name) rooms = Some (Inr (join_room_B rid sid name rooms))"
| "step_B g (Start_game_B rid sid) rooms =
     (case rooms rid of
        None \<Rightarrow> Some (Inr rooms)
      | Some room \<Rightarrow> Some (Inr (rooms(rid \<mapsto> start_game_B g sid room))))"
| "step_B g (Draw_card_B rid sid) rooms =
     (case rooms rid of
        None \<Rightarrow> Some (Inr rooms)
      | Some room \<Rightarrow>
          (case draw_card_B sid room of
             Inl e \<Rightarrow> Some (Inl e)
           | Inr room' \<Rightarrow> Some (Inr (rooms(rid \<mapsto> room')))))"
| "step_B g (Replace_card_B rid sid cardToDiscardId newCard) rooms =
     (case rooms rid of
        None \<Rightarrow> Some (Inr rooms)
      | Some room \<Rightarrow>
          (case replace_card_B sid cardToDiscardId newCard room of
             None \<Rightarrow> None
           | Some (Inl e) \<Rightarrow> Some (Inl e)
           | Some (Inr room') \<Rightarrow> Some (Inr (rooms(rid \<mapsto> room')))))"
| "step_B g (Declare_show_B rid sid) rooms =
     (case rooms rid of
        None \<Rightarrow> Some (Inr rooms)
      | Some room \<Rightarrow>
          (case declare_show_B sid room of
             Inl e \<Rightarrow> Some (Inl e)
           | Inr (sigs, room') \<Rightarrow> Some (Inr (rooms(rid \<mapsto> room')))))"
| "step_B g (Disconnecting_B sid joined) rooms = Some (Inr (disconnecting_B sid joined rooms))"

fun run_B :: "rng \<Rightarrow> event_B list \<Rightarrow> registry \<Rightarrow> (error + registry) option" where
  "run_B g [] rooms = Some (Inr rooms)"
| "run_B g (ev # evs) rooms =
     (case step_B g ev rooms of
        None \<Rightarrow> None
      | Some (Inl e) \<Rightarrow> Some (Inl e)
      | Some (Inr rooms') \<Rightarrow> run_B g evs rooms')"

text \<open>A handler or a run that returned, and did not throw.\<close>

definition returned :: "(error + 'a) option \<Rightarrow> bool" where
  "returned r = (case r of Some (Inr x) \<Rightarrow> True | _ \<Rightarrow> False)"

text \<open>The room with a given id after a run that returned.\<close>

definition room_of_B :: "(error + registry) option \<Rightarrow> string \<Rightarrow> room option" where
  "room_of_B r rid = (case r of Some (Inr rooms) \<Rightarrow> rooms rid | _ \<Rightarrow> None)"

section \<open>The data model of the specification\<close>

text \<open>
  The ranks of the data model are the thirteen ranks of \<open>createDeck\<close> and the joker
  marker. A hand of the data model holds cards of these ranks only (and possibly missing
  entries).
\<close>

definition data_model_rank :: "string \<Rightarrow> bool" where
  "data_model_rank r = (r \<in> set (ranks @ [''Joker'']))"

definition data_model_hand :: "hand \<Rightarrow> bool" where
  "data_model_hand h = (\<forall>c. Some c \<in> set h \<longrightarrow> data_model_rank (rank c))"

text \<open>
  The registries that \<open>server.js\<close> can be in when its clients send, in
  \<open>replace_card\<close>, cards of the data model only (or no card).
\<close>

definition client_card_ok :: "event_B \<Rightarrow> bool" where
  "client_card_ok ev =
     (case ev of
        Replace_card_B rid sid cardToDiscardId (Some newCard) \<Rightarrow> data_model_rank (rank newCard)
      | _ \<Rightarrow> True)"

inductive reachable_B :: "registry \<Rightarrow> bool" where
  initial_B: "reachable_B Map.empty"
| after_event_B:
    "reachable_B rooms \<Longrightarrow> sort_permutes g \<Longrightarrow> client_card_ok ev \<Longrightarrow>
     step_B g ev rooms = Some (Inr rooms') \<Longrightarrow> reachable_B rooms'"

text \<open>The numeric value of a numeric rank, as a table.\<close>

definition numeric_value :: "string \<Rightarrow> int" where
  "numeric_value r =
     (case map_of [(''2'', 2), (''3'', 3), (''4'', 4), (''5'', 5), (''6'', 6), (''7'', 7),
                   (''8'', 8), (''9'', 9), (''10'', 10)] r of
        Some n \<Rightarrow> n | None \<Rightarrow> 0)"

text \<open>
  The contribution of one card to a score, in the words of the specification, for a face
  value \<open>face\<close>: nothing for a joker or a card of the open joker's rank, \<open>face\<close> for
  J, Q and K, 1 for an ace, the numeric value of a numeric rank. A missing card
  contributes nothing.
\<close>

definition contribution :: "int \<Rightarrow> string \<Rightarrow> card option \<Rightarrow> int" where
  "contribution face openJokerRank c =
     (case c of
        None \<Rightarrow> 0
      | Some crd \<Rightarrow>
          if rank crd = ''Joker'' \<or> rank crd = openJokerRank then 0
          else if rank crd = ''J'' \<or> rank crd = ''Q'' \<or> rank crd = ''K'' then face
          else if rank crd = ''A'' then 1
          else numeric_value (rank crd))"

text \<open>What one step of either \<open>reduce\<close> adds to the running total.\<close>

definition added :: "int \<Rightarrow> string \<Rightarrow> card option \<Rightarrow> jsnum" where
  "added face openJokerRank c =
     (case c of
        None \<Rightarrow> Fin 0
      | Some crd \<Rightarrow>
          if rank crd = ''Joker'' \<or> rank crd = openJokerRank then Fin 0
          else if rank crd \<in> set [''J'', ''Q'', ''K''] then Fin face
          else if rank crd = ''A'' then Fin 1
          else parseInt (rank crd))"

text \<open>
  Two outcomes of the random calls, used as examples. In \<open>sample_rng\<close> the 52 random
  ids are the distinct strings x7q2m1c00, x7q2m1c01, ..., x7q2m1c51 and the sort reverses
  the array. In \<open>colliding_rng\<close> the first two calls of \<open>Math.random\<close> give the
  same string.
\<close>

definition sample_id :: "nat \<Rightarrow> string" where
  "sample_id k = ''x7q2m1c'' @ [char_of (48 + k div 10), char_of (48 + k mod 10)]"

definition sample_rng :: rng where
  "sample_rng = \<lparr>random_id = sample_id, sort_random = rev\<rparr>"

definition colliding_rng :: rng where
  "colliding_rng = \<lparr>random_id = (\<lambda>k. sample_id (k - 1)), sort_random = rev\<rparr>"

text \<open>
  The resolution of a show, in the words of the specification, for a caller \<open>c\<close> with
  socket id \<open>sid\<close>. The other active players are the players that are not eliminated
  and have another id. The show succeeds when the caller's score is strictly less than the
  score of every other active player. On success the celebration is signalled and every
  other active player's total grows by that player's own score, all other totals being
  unchanged. Otherwise no celebration is signalled and one entry of the caller grows by the
  penalty, which is a function of the caller's score, all other totals being unchanged.
\<close>

definition show_resolution ::
  "(jsnum \<Rightarrow> jsnum) \<Rightarrow> (player \<Rightarrow> jsnum) \<Rightarrow> string \<Rightarrow> player \<Rightarrow> room
     \<Rightarrow> error + signal list \<times> room \<Rightarrow> bool" where
  "show_resolution penalty score sid c room result =
     (let others = filter (\<lambda>q. \<not> eliminated q \<and> id_player q \<noteq> sid) (players room);
          success = (\<forall>q \<in> set others. js_lt (score c) (score q))
      in case result of
           Inl e \<Rightarrow> False
         | Inr (sigs, room') \<Rightarrow>
             length (players room') = length (players room) \<and>
             (if success then
                Celebration \<in> set sigs \<and>
                (\<forall>j < length (players room).
                   totalScore (players room' ! j) =
                     (if \<not> eliminated (players room ! j) \<and> id_player (players room ! j) \<noteq> sid
                      then js_add (totalScore (players room ! j)) (score (players room ! j))
                      else totalScore (players room ! j)))
              else
                Celebration \<notin> set sigs \<and>
                (\<exists>i < length (players room).
                   id_player (players room ! i) = sid \<and>
                   totalScore (players room' ! i) =
                     js_add (totalScore (players room ! i)) (penalty (score c)) \<and>
                   (\<forall>j < length (players room). j \<noteq> i \<longrightarrow>
                      totalScore (players room' ! j) = totalScore (players room ! j)))))"

text \<open>
  The outcome of the scenario of the specification: a successful show in which a total
  grows by 9 when it is the total of an active player other than the caller, and no
  other total changes; below the round limit the room goes back to the lobby and the
  round counter grows by one.
\<close>

definition scenario_outcome :: "string \<Rightarrow> room \<Rightarrow> error + signal list \<times> room \<Rightarrow> bool" where
  "scenario_outcome sid room result =
     (case result of
        Inl e \<Rightarrow> False
      | Inr (sigs, room') \<Rightarrow>
          Celebration \<in> set sigs \<and>
          length (players room') = length (players room) \<and>
          (\<forall>j < length (players room).
             totalScore (players room' ! j) =
               (if \<not> eliminated (players room ! j) \<and> id_player (players room ! j) \<noteq> sid
                then js_add (totalScore (players room ! j)) (Fin 9)
                else totalScore (players room ! j))) \<and>
          (currentRound room < roundLimit room \<longrightarrow>
             status room' = LOBBY \<and> currentRound room' = currentRound room + 1))"

text \<open>
  An example room: the game is on, alice (score 5) and bob (score 9) are active, carol is
  eliminated, the open joker is a king. In \<open>sole_room\<close> alice is the only active player.
\<close>

definition alice :: player where
  "alice = \<lparr>id_player = ''s1'', username = ''alice'',
            hand = [Some \<lparr>suit = Spades, rank = ''A'', id_card = ''p0a8s1w3e''\<rparr>,
                    Some \<lparr>suit = Spades, rank = ''2'', id_card = ''h5t1k9z2u''\<rparr>,
                    Some \<lparr>suit = Hearts, rank = ''2'', id_card = ''c4n7r0y6d''\<rparr>],
            totalScore = Fin 3, eliminated = False, currentDrawnCard = None\<rparr>"

definition bob :: player where
  "bob = \<lparr>id_player = ''s2'', username = ''bob'',
          hand = [Some \<lparr>suit = Clubs, rank = ''2'', id_card = ''o2f6j1q8v''\<rparr>,
                  Some \<lparr>suit = Clubs, rank = ''3'', id_card = ''b9m3x5g0i''\<rparr>,
                  Some \<lparr>suit = Clubs, rank = ''4'', id_card = ''t7l4e2s6a''\<rparr>],
          totalScore = Fin 7, eliminated = False, currentDrawnCard = None\<rparr>"

definition carol :: player where
  "carol = \<lparr>id_player = ''s3'', username = ''carol'', hand = [], totalScore = Fin 40,
            eliminated = True, currentDrawnCard = None\<rparr>"

definition king_of_diamonds :: card where
  "king_of_diamonds = \<lparr>suit = Diamonds, rank = ''K'', id_card = ''w1u8d3k5n''\<rparr>"

definition example_room :: room where
  "example_room =
     \<lparr>roomId = ''X7Q2'', players = [alice, carol, bob], deck = [],
      openJoker = Some king_of_diamonds, turn = 0, status = PLAYING, hostId = ''s1'',
      roundLimit = 3, currentRound = 1\<rparr>"

definition sole_room :: room where
  "sole_room = example_room\<lparr>players := [alice, carol]\<rparr>"

text \<open>
  The outcome of a departure, in the words of the specification: a room where the socket
  has no player is left as it is; otherwise the first player of the socket is taken out
  of the sequence, the others keeping their order; when no player remains the room is
  removed; when the socket was the host, the first remaining player becomes the host.
\<close>

definition leave_outcome :: "string \<Rightarrow> room \<Rightarrow> room option \<Rightarrow> bool" where
  "leave_outcome sid room result =
     (if \<forall>p \<in> set (players room). id_player p \<noteq> sid then result = Some room
      else
        (\<exists>i < length (players room).
           id_player (players room ! i) = sid \<and>
           (\<forall>j < i. id_player (players room ! j) \<noteq> sid) \<and>
           (let remaining = take i (players room) @ drop (Suc i) (players room)
            in if remaining = [] then result = None
               else result = Some (room\<lparr>players := remaining,
                        hostId := (if hostId room = sid then id_player (hd remaining)
                                   else hostId room)\<rparr>))))"

definition lonely_room :: room where
  "lonely_room = example_room\<lparr>roomId := ''K0P9'', players := [alice], status := LOBBY\<rparr>"

definition example_rooms :: registry where
  "example_rooms = [''X7Q2'' \<mapsto> example_room, ''K0P9'' \<mapsto> lonely_room]"


text \<open>
  What a counterexample shows of a room: the status, the turn and, for each player, the
  socket id, the \<open>eliminated\<close> flag, the total, the ids of the cards in hand and the
  id of the staged card.
\<close>

definition player_view :: "player \<Rightarrow> string \<times> bool \<times> jsnum \<times> string option list \<times> string option" where
  "player_view p =
     (id_player p, eliminated p, totalScore p, map (map_option id_card) (hand p),
      map_option id_card (currentDrawnCard p))"

definition room_view ::
  "room \<Rightarrow> status \<times> int \<times> (string \<times> bool \<times> jsnum \<times> string option list \<times> string option) list" where
  "room_view r = (status r, turn r, map player_view (players r))"

definition view_after ::
  "event list \<Rightarrow> string
     \<Rightarrow> (status \<times> int \<times> (string \<times> bool \<times> jsnum \<times> string option list \<times> string option) list) option" where
  "view_after evs rid = map_option room_view (room_of (run sample_rng evs Map.empty) rid)"

text \<open>
  Three runs, with the random outcomes of \<open>sample_rng\<close>: the open joker is the ace of
  spades (its id ends in 00), the first player is dealt the 2, 3 and 4 of spades (01, 02,
  03), the second the 5, 6 and 7 (04, 05, 06), the third the 8, 9 and 10 (07, 08, 09).

  In \<open>short_game\<close> the round limit is 1; alice's show succeeds (9 against 18), bob is
  eliminated, and alice is the only active player left.

  In \<open>emptied_game\<close> alice then draws a card and declares again: alone, alice
  succeeds, and is eliminated in turn, holding the staged card.

  In \<open>shifted_game\<close> the host takes a turn, alice draws a card, and the host leaves: the
  players behind move one index down, the turn index stays.
\<close>

definition short_game :: "event list" where
  "short_game =
     [Create_room ''R1ZQ'' ''s1'' ''alice'' ''1'', Join_room ''R1ZQ'' ''s2'' ''bob'',
      Start_game ''R1ZQ'' ''s1'', Declare_show ''R1ZQ'' ''s1'']"



text \<open>
  Runs of \<open>server.js\<close>, with the same random outcomes. In \<open>lone_game\<close> alice makes a
  room and starts the game alone, and is dealt the 2, 3 and 4 of spades. In
  \<open>forged_game\<close> alice's client then sends \<open>replace_card\<close> with a card that no deck
  holds, of rank x, for the 2 of spades. In \<open>duel_game\<close> alice and bob are dealt their cards;
  in \<open>lowered_game\<close> both clients then send a card of a negative rank.
\<close>

definition forged_card :: "string \<Rightarrow> card" where
  "forged_card r = \<lparr>suit = Spades, rank = r, id_card = ''k2j8d0f5s''\<rparr>"

definition lone_game :: "event_B list" where
  "lone_game = [Create_room_B ''R3ZQ'' ''s1'' ''alice'' ''5'', Start_game_B ''R3ZQ'' ''s1'']"

definition forged_game :: "event_B list" where
  "forged_game =
     lone_game @ [Replace_card_B ''R3ZQ'' ''s1'' ''x7q2m1c01'' (Some (forged_card ''x''))]"

definition duel_game :: "event_B list" where
  "duel_game =
     [Create_room_B ''R4ZQ'' ''s1'' ''alice'' ''5'', Join_room_B ''R4ZQ'' ''s2'' ''bob'',
      Start_game_B ''R4ZQ'' ''s1'']"

definition lowered_game :: "event_B list" where
  "lowered_game =
     duel_game @
     [Replace_card_B ''R4ZQ'' ''s1'' ''x7q2m1c01'' (Some (forged_card ''-200'')),
      Replace_card_B ''R4ZQ'' ''s2'' ''x7q2m1c04'' (Some (forged_card ''-100''))]"


definition lone_rooms :: registry where
  "lone_rooms = projr (the (run_B sample_rng lone_game Map.empty))"

text \<open>
  What \<open>declare_show\<close> of \<open>server.js\<close> makes of the room with a given id after a run:
  the ids of the active players and the totals before the show, the signals and the totals
  after it.
\<close>

definition show_view ::
  "event_B list \<Rightarrow> string \<Rightarrow> string
     \<Rightarrow> (string list \<times> jsnum list \<times> (error + signal list \<times> jsnum list)) option" where
  "show_view evs rid sid =
     map_option
       (\<lambda>room. (map id_player (filter (\<lambda>q. \<not> eliminated q) (players room)),
                 map totalScore (players room),
                 map_sum (\<lambda>e. e) (\<lambda>(sigs, room'). (sigs, map totalScore (players room')))
                   (declare_show_B sid room)))
       (room_of_B (run_B sample_rng evs Map.empty) rid)"





text \<open>
  The invariant of the rooms of a run: the hands and the staged cards hold cards of the
  data model, every total is an integer, and the deck holds cards of the data model.
\<close>

definition player_ok :: "player \<Rightarrow> bool" where
  "player_ok p =
     (data_model_hand (hand p) \<and> (\<exists>n. totalScore p = Fin n) \<and>
      (\<forall>c. currentDrawnCard p = Some c \<longrightarrow> data_model_rank (rank c)))"

definition room_ok :: "room \<Rightarrow> bool" where
  "room_ok room =
     ((\<forall>p \<in> set (players room). player_ok p) \<and>
      (\<forall>c \<in> set (deck room). data_model_rank (rank c)))"

definition registry_ok :: "registry \<Rightarrow> bool" where
  "registry_ok rooms = (\<forall>rid room. rooms rid = Some room \<longrightarrow> room_ok room)"

text \<open>Two relations between a player before and after a step, for the proofs.\<close>

definition grown :: "player \<Rightarrow> player \<Rightarrow> bool" where
  "grown p q = (id_player q = id_player p \<and> js_le (totalScore p) (totalScore q) \<and> player_ok q)"


definition flagged :: "player \<Rightarrow> player \<Rightarrow> bool" where
  "flagged p q = (q = p \<or> q = p\<lparr>eliminated := True\<rparr>)"



text \<open>The registry after \<open>short_game\<close>, where alice is the only active player.\<close>

definition short_rooms :: registry where
  "short_rooms = projr (run sample_rng short_game Map.empty)"

section \<open>Scores\<close>

lemma js_add_zero: "js_add x (Fin 0) = x"
  by (cases x) simp_all

lemma parseInt_numeric:
  "parseInt ''2'' = Fin 2" "parseInt ''3'' = Fin 3" "parseInt ''4'' = Fin 4"
  "parseInt ''5'' = Fin 5" "parseInt ''6'' = Fin 6" "parseInt ''7'' = Fin 7"
  "parseInt ''8'' = Fin 8" "parseInt ''9'' = Fin 9" "parseInt ''10'' = Fin 10"
  by (simp_all add: parseInt_def is_ws_def is_digit_def digit_val_def digits_value_def)

lemma score_step_added: "score_step oj t c = js_add t (added 10 oj c)"
  by (simp add: score_step_def added_def js_add_zero split: option.splits)

lemma score_step_B_added: "score_step_B oj t c = js_add t (added 15 oj c)"
  by (simp add: score_step_B_def added_def js_add_zero split: option.splits)

lemma added_contribution:
  assumes "data_model_hand h" and "c \<in> set h"
  shows "added face oj c = Fin (contribution face oj c)"
proof (cases c)
  case None
  then show ?thesis by (simp add: added_def contribution_def)
next
  case (Some crd)
  with assms have "rank crd \<in> set (ranks @ [''Joker''])"
    by (simp add: data_model_hand_def data_model_rank_def)
  then show ?thesis using Some unfolding ranks_def
    by (auto simp add: added_def contribution_def numeric_value_def parseInt_numeric)
qed

lemma contribution_nonneg: "0 \<le> face \<Longrightarrow> 0 \<le> contribution face oj c"
  by (auto simp add: contribution_def numeric_value_def split: option.splits)

lemma sum_contribution_nonneg: "0 \<le> face \<Longrightarrow> 0 \<le> (\<Sum>c\<leftarrow>h. contribution face oj c)"
  by (induction h) (simp_all add: contribution_nonneg)

lemma foldl_added:
  "\<forall>c \<in> set h. f c = Fin (k c) \<Longrightarrow>
   foldl (\<lambda>t c. js_add t (f c)) (Fin t) h = Fin (t + (\<Sum>c\<leftarrow>h. k c))"
  by (induction h arbitrary: t) (simp_all add: add.assoc)

lemma calculateScore_data_model:
  assumes "data_model_hand h"
  shows "calculateScore h oj = Fin (\<Sum>c\<leftarrow>h. contribution 10 oj c)"
proof -
  have "calculateScore h oj = foldl (\<lambda>t c. js_add t (added 10 oj c)) (Fin 0) h"
    unfolding calculateScore_def score_step_added [abs_def] ..
  also have "\<dots> = Fin (0 + (\<Sum>c\<leftarrow>h. contribution 10 oj c))"
    by (rule foldl_added) (simp add: added_contribution [OF assms])
  finally show ?thesis by simp
qed

lemma calculateScore_B_data_model:
  assumes "data_model_hand h"
  shows "calculateScore_B h oj = Fin (\<Sum>c\<leftarrow>h. contribution 15 oj c)"
proof -
  have "calculateScore_B h oj = foldl (\<lambda>t c. js_add t (added 15 oj c)) (Fin 0) h"
    unfolding calculateScore_B_def score_step_B_added [abs_def] ..
  also have "\<dots> = Fin (0 + (\<Sum>c\<leftarrow>h. contribution 15 oj c))"
    by (rule foldl_added) (simp add: added_contribution [OF assms])
  finally show ?thesis by simp
qed

lemma sum_list_permuted:
  assumes "mset h = mset h'"
  shows "(\<Sum>c\<leftarrow>h. k c) = (\<Sum>c\<leftarrow>(h' :: hand). (k c :: int))"
proof -
  have "(\<Sum>c\<leftarrow>h. k c) = sum_mset (image_mset k (mset h))"
    by (simp add: sum_mset_sum_list [symmetric])
  also have "\<dots> = sum_mset (image_mset k (mset h'))" using assms by simp
  also have "\<dots> = (\<Sum>c\<leftarrow>h'. k c)" by (simp add: sum_mset_sum_list [symmetric])
  finally show ?thesis .
qed

lemma data_model_hand_permuted:
  assumes "data_model_hand h" and "mset h = mset h'"
  shows "data_model_hand h'"
proof -
  from assms(2) have "set h' = set h" by (rule mset_eq_setD [symmetric])
  with assms(1) show ?thesis by (simp add: data_model_hand_def)
qed

text \<open>
  \<^bold>\<open>Claim C4.\<close> For every hand of cards of the data model (of three cards, or of any
  other length) and every rank of the open joker, the score of the hand is the sum of the
  contributions of its cards: 0 for a joker or a card of the open joker's rank, the face
  value (10 in one variant of the server, 15 in the other) for J, Q and K, 1 for an ace,
  the numeric value for a numeric rank. The score is never negative.
\<close>

theorem calculateScore_sum_of_contributions:
  assumes "data_model_hand h"
  shows "calculateScore h oj = Fin (\<Sum>c\<leftarrow>h. contribution 10 oj c)
       \<and> calculateScore_B h oj = Fin (\<Sum>c\<leftarrow>h. contribution 15 oj c)
       \<and> 0 \<le> (\<Sum>c\<leftarrow>h. contribution 10 oj c)
       \<and> 0 \<le> (\<Sum>c\<leftarrow>h. contribution 15 oj c)"
  using calculateScore_data_model [OF assms] calculateScore_B_data_model [OF assms]
  by (simp add: sum_contribution_nonneg)

theorem calculateScore_sum_of_contributions_witness:
  "data_model_hand [Some \<lparr>suit = Hearts, rank = ''K'', id_card = ''k3f9a2xq0''\<rparr>,
                    Some \<lparr>suit = Spades, rank = ''A'', id_card = ''0zq1xw93r''\<rparr>,
                    Some \<lparr>suit = Clubs, rank = ''7'', id_card = ''m22ab7pl4''\<rparr>]
   \<and> calculateScore [Some \<lparr>suit = Hearts, rank = ''K'', id_card = ''k3f9a2xq0''\<rparr>,
                     Some \<lparr>suit = Spades, rank = ''A'', id_card = ''0zq1xw93r''\<rparr>,
                     Some \<lparr>suit = Clubs, rank = ''7'', id_card = ''m22ab7pl4''\<rparr>] ''9'' = Fin 18
   \<and> calculateScore_B [Some \<lparr>suit = Hearts, rank = ''K'', id_card = ''k3f9a2xq0''\<rparr>,
                       Some \<lparr>suit = Spades, rank = ''A'', id_card = ''0zq1xw93r''\<rparr>,
                       Some \<lparr>suit = Clubs, rank = ''7'', id_card = ''m22ab7pl4''\<rparr>] ''7'' = Fin 16"
proof -
  let ?h = "[Some \<lparr>suit = Hearts, rank = ''K'', id_card = ''k3f9a2xq0''\<rparr>,
             Some \<lparr>suit = Spades, rank = ''A'', id_card = ''0zq1xw93r''\<rparr>,
             Some \<lparr>suit = Clubs, rank = ''7'', id_card = ''m22ab7pl4''\<rparr>]"
  have h: "data_model_hand ?h"
    by (auto simp add: data_model_hand_def data_model_rank_def ranks_def)
  show ?thesis
    using h calculateScore_sum_of_contributions [OF h, of "''9''"]
      calculateScore_sum_of_contributions [OF h, of "''7''"]
    by (simp add: contribution_def numeric_value_def)
qed

text \<open>
  \<^bold>\<open>Claim C9.\<close> The score of a hand of cards of the data model does not depend on
  the order of the cards: two such hands that are permutations of each other have the same
  score, whatever the rank of the open joker, in both variants of \<open>calculateScore\<close>.
  Each card of such a hand adds an integer from 0 to 15 to the running total, so that the
  total of an array of JavaScript (fewer than 2 to the power 32 entries) stays in the range
  where the additions of the code are exact, in whatever order they are made.
\<close>

theorem calculateScore_order_independent:
  assumes "data_model_hand h" and "mset h = mset h'"
  shows "calculateScore h oj = calculateScore h' oj
       \<and> calculateScore_B h oj = calculateScore_B h' oj"
proof -
  note h' = data_model_hand_permuted [OF assms]
  show ?thesis
    unfolding calculateScore_data_model [OF assms(1)] calculateScore_data_model [OF h']
      calculateScore_B_data_model [OF assms(1)] calculateScore_B_data_model [OF h']
    by (simp add: sum_list_permuted [OF assms(2)])
qed

theorem calculateScore_order_independent_witness:
  "data_model_hand [Some \<lparr>suit = Hearts, rank = ''K'', id_card = ''k3f9a2xq0''\<rparr>,
                    Some \<lparr>suit = Spades, rank = ''A'', id_card = ''0zq1xw93r''\<rparr>,
                    Some \<lparr>suit = Clubs, rank = ''7'', id_card = ''m22ab7pl4''\<rparr>]
   \<and> mset [Some \<lparr>suit = Hearts, rank = ''K'', id_card = ''k3f9a2xq0''\<rparr>,
           Some \<lparr>suit = Spades, rank = ''A'', id_card = ''0zq1xw93r''\<rparr>,
           Some \<lparr>suit = Clubs, rank = ''7'', id_card = ''m22ab7pl4''\<rparr>]
     = mset [Some \<lparr>suit = Clubs, rank = ''7'', id_card = ''m22ab7pl4''\<rparr>,
             Some \<lparr>suit = Hearts, rank = ''K'', id_card = ''k3f9a2xq0''\<rparr>,
             Some \<lparr>suit = Spades, rank = ''A'', id_card = ''0zq1xw93r''\<rparr>]
   \<and> calculateScore [Some \<lparr>suit = Hearts, rank = ''K'', id_card = ''k3f9a2xq0''\<rparr>,
                     Some \<lparr>suit = Spades, rank = ''A'', id_card = ''0zq1xw93r''\<rparr>,
                     Some \<lparr>suit = Clubs, rank = ''7'', id_card = ''m22ab7pl4''\<rparr>] ''Q''
     = calculateScore [Some \<lparr>suit = Clubs, rank = ''7'', id_card = ''m22ab7pl4''\<rparr>,
                       Some \<lparr>suit = Hearts, rank = ''K'', id_card = ''k3f9a2xq0''\<rparr>,
                       Some \<lparr>suit = Spades, rank = ''A'', id_card = ''0zq1xw93r''\<rparr>] ''Q''
   \<and> calculateScore [Some \<lparr>suit = Clubs, rank = ''7'', id_card = ''m22ab7pl4''\<rparr>,
                     Some \<lparr>suit = Hearts, rank = ''K'', id_card = ''k3f9a2xq0''\<rparr>,
                     Some \<lparr>suit = Spades, rank = ''A'', id_card = ''0zq1xw93r''\<rparr>] ''Q'' = Fin 18"
proof -
  let ?h = "[Some \<lparr>suit = Hearts, rank = ''K'', id_card = ''k3f9a2xq0''\<rparr>,
             Some \<lparr>suit = Spades, rank = ''A'', id_card = ''0zq1xw93r''\<rparr>,
             Some \<lparr>suit = Clubs, rank = ''7'', id_card = ''m22ab7pl4''\<rparr>]"
  let ?h' = "[Some \<lparr>suit = Clubs, rank = ''7'', id_card = ''m22ab7pl4''\<rparr>,
              Some \<lparr>suit = Hearts, rank = ''K'', id_card = ''k3f9a2xq0''\<rparr>,
              Some \<lparr>suit = Spades, rank = ''A'', id_card = ''0zq1xw93r''\<rparr>]"
  have d: "data_model_hand ?h"
    by (auto simp add: data_model_hand_def data_model_rank_def ranks_def)
  have p: "mset ?h = mset ?h'" by (simp add: add.commute add.left_commute)
  have v: "calculateScore ?h ''Q'' = Fin 18"
    by (simp add: calculateScore_def score_step_def parseInt_numeric)
  show ?thesis
    using d p v calculateScore_order_independent [OF d p, of "''Q''"] by simp
qed


section \<open>Decks\<close>

lemma ranked_cards_ids: "map id_card (ranked_cards g) = map (random_id g) [0..<52]"
  by (simp add: ranked_cards_def suits_def ranks_def upt_rec)

lemma ranked_cards_ranks: "set (map rank (ranked_cards g)) \<subseteq> set ranks"
  by (simp add: ranked_cards_def suits_def ranks_def upt_rec)

lemma ranked_cards_length: "length (ranked_cards g) = 52"
  by (simp add: ranked_cards_def suits_def ranks_def upt_rec)

lemma ranked_cards_no_joker: "filter (\<lambda>c. rank c = ''Joker'') (ranked_cards g) = []"
  by (simp add: ranked_cards_def suits_def ranks_def upt_rec)

lemma sort_permutes_mset: "sort_permutes g \<Longrightarrow> mset (sort_random g d) = mset d"
  by (simp add: sort_permutes_def)

lemma sort_permutes_length: "sort_permutes g \<Longrightarrow> length (sort_random g d) = length d"
  by (rule mset_eq_length) (rule sort_permutes_mset)

lemma sort_permutes_set: "sort_permutes g \<Longrightarrow> set (sort_random g d) = set d"
  by (rule mset_eq_setD) (rule sort_permutes_mset)

lemma sort_permutes_distinct:
  "sort_permutes g \<Longrightarrow> distinct (map f (sort_random g d)) = distinct (map f d)"
  by (rule mset_eq_imp_distinct_iff) (simp add: sort_permutes_mset)

lemma sort_permutes_count:
  "sort_permutes g \<Longrightarrow> length (filter P (sort_random g d)) = length (filter P d)"
  by (rule mset_eq_length) (simp add: sort_permutes_mset)

lemma sort_permutes_rev: "sort_permutes \<lparr>random_id = f, sort_random = rev\<rparr>"
  by (simp add: sort_permutes_def)

text \<open>
  \<^bold>\<open>Claim C5, as stated, fails.\<close> The ids of the ranked cards are random strings, drawn
  with no check for a collision. When two calls of \<open>Math.random\<close> give the same string,
  as in \<open>colliding_rng\<close>, the deck has two cards with one id.
\<close>

theorem createDeck_ids_collide:
  "sort_permutes colliding_rng \<and> \<not> distinct (map id_card (createDeck colliding_rng))"
proof -
  have p: "sort_permutes colliding_rng"
    unfolding colliding_rng_def by (rule sort_permutes_rev)
  have "ranked_cards colliding_rng \<noteq> []
      \<and> id_card (ranked_cards colliding_rng ! 0) = id_card (ranked_cards colliding_rng ! 1)"
    by (simp add: ranked_cards_def suits_def ranks_def upt_rec colliding_rng_def)
  then have "\<not> distinct (map id_card (ranked_cards colliding_rng))"
    by (simp add: distinct_conv_nth ranked_cards_length)
      (metis One_nat_def ranked_cards_length zero_less_numeral zero_neq_one
        one_less_numeral_iff semiring_norm(76))
  then have "\<not> distinct (map id_card (ranked_cards colliding_rng
                @ [joker ''Joker1'', joker ''Joker2'']))"
    by simp
  then show ?thesis
    using p by (simp only: createDeck_def sort_permutes_distinct [OF p] simp_thms)
qed

text \<open>
  \<^bold>\<open>Claim C5, amended.\<close> Every deck built has the 52 ranked cards and the jokers, and
  no other card: 54 cards with two jokers in one variant of the server, 53 cards with one
  joker in the other. The ids of a deck are pairwise distinct exactly when the 52 random
  strings drawn for the ranked cards are pairwise distinct and none of them is the id of
  a joker.
\<close>

theorem createDeck_size_and_ids:
  assumes "sort_permutes g"
  shows "length (createDeck g) = 52 + 2
       \<and> length (filter (\<lambda>c. rank c = ''Joker'') (createDeck g)) = 2
       \<and> (distinct (map id_card (createDeck g)) \<longleftrightarrow>
            distinct (map (random_id g) [0..<52])
            \<and> (\<forall>k<52. random_id g k \<noteq> ''Joker1'' \<and> random_id g k \<noteq> ''Joker2''))
       \<and> length (createDeck_B g) = 52 + 1
       \<and> length (filter (\<lambda>c. rank c = ''Joker'') (createDeck_B g)) = 1
       \<and> (distinct (map id_card (createDeck_B g)) \<longleftrightarrow>
            distinct (map (random_id g) [0..<52])
            \<and> (\<forall>k<52. random_id g k \<noteq> ''Joker1''))"
proof -
  have in_upt: "\<And>x. (x \<in> random_id g ` {0..<52}) = (\<exists>k<52. random_id g k = x)"
    by auto
  have a: "distinct (map id_card (ranked_cards g @ [joker ''Joker1'', joker ''Joker2''])) \<longleftrightarrow>
           distinct (map (random_id g) [0..<52])
           \<and> (\<forall>k<52. random_id g k \<noteq> ''Joker1'' \<and> random_id g k \<noteq> ''Joker2'')"
    unfolding map_append distinct_append ranked_cards_ids
    by (auto simp add: joker_def in_upt)
  have b: "distinct (map id_card (ranked_cards g @ [joker ''Joker1''])) \<longleftrightarrow>
           distinct (map (random_id g) [0..<52]) \<and> (\<forall>k<52. random_id g k \<noteq> ''Joker1'')"
    unfolding map_append distinct_append ranked_cards_ids
    by (auto simp add: joker_def in_upt)
  show ?thesis
    unfolding createDeck_def createDeck_B_def
      sort_permutes_length [OF assms] sort_permutes_count [OF assms]
      sort_permutes_distinct [OF assms] a b
    by (simp add: ranked_cards_length ranked_cards_no_joker joker_def)
qed

theorem createDeck_size_and_ids_witness:
  "sort_permutes sample_rng \<and> length (createDeck sample_rng) = 54
   \<and> length (createDeck_B sample_rng) = 53"
proof -
  have p: "sort_permutes sample_rng"
    unfolding sample_rng_def by (rule sort_permutes_rev)
  show ?thesis using p createDeck_size_and_ids [OF p] by simp
qed


section \<open>The resolution of a show\<close>

lemma find_scores:
  "find (\<lambda>s. fst s = sid) (map (\<lambda>p. (id_player p, f p)) (filter (\<lambda>p. \<not> eliminated p) ps))
   = map_option (\<lambda>p. (id_player p, f p)) (find (\<lambda>p. \<not> eliminated p \<and> id_player p = sid) ps)"
  by (induction ps) simp_all

lemma other_scores:
  "map snd (filter (\<lambda>s. fst s \<noteq> sid) (map (\<lambda>p. (id_player p, f p)) (filter (\<lambda>p. \<not> eliminated p) ps)))
   = map f (filter (\<lambda>q. \<not> eliminated q \<and> id_player q \<noteq> sid) ps)"
  by (induction ps) simp_all

lemma js_lt_min2: "js_lt x (js_min2 a y) \<longleftrightarrow> js_lt x a \<and> js_lt x y"
  by (cases x; cases a; cases y) auto

lemma js_lt_foldl_min: "js_lt x (foldl js_min2 a ys) \<longleftrightarrow> js_lt x a \<and> (\<forall>y \<in> set ys. js_lt x y)"
  by (induction ys arbitrary: a) (auto simp add: js_lt_min2)

lemma js_lt_PosInf: "js_lt x y \<Longrightarrow> js_lt x PosInf"
  by (cases x; cases y) simp_all

lemma js_lt_Math_min:
  "js_lt x (Math_min ys) \<longleftrightarrow> js_lt x PosInf \<and> (\<forall>y \<in> set ys. js_lt x y)"
  by (simp add: Math_min_def js_lt_foldl_min)

lemma js_lt_Math_min_nonempty:
  "ys \<noteq> [] \<Longrightarrow> js_lt x (Math_min ys) \<longleftrightarrow> (\<forall>y \<in> set ys. js_lt x y)"
  using js_lt_PosInf by (cases ys) (auto simp add: js_lt_Math_min)

lemma update_first_index:
  "find P xs = Some x \<Longrightarrow>
   \<exists>i < length xs. xs ! i = x \<and> P x \<and> (\<forall>j < i. \<not> P (xs ! j)) \<and> update_first P f xs = xs[i := f x]"
proof (induction xs)
  case Nil
  then show ?case by simp
next
  case (Cons a xs)
  show ?case
  proof (cases "P a")
    case True
    with Cons.prems have "a = x" by simp
    with True show ?thesis by (intro exI [of _ 0]) simp
  next
    case False
    with Cons.prems have "find P xs = Some x" by simp
    from Cons.IH [OF this] obtain i where i: "i < length xs" "xs ! i = x" "P x"
      "\<forall>j < i. \<not> P (xs ! j)" "update_first P f xs = xs[i := f x]" by blast
    show ?thesis
      using i False by (intro exI [of _ "Suc i"]) (auto simp add: less_Suc_eq_0_disj)
  qed
qed

lemma length_update_first: "length (update_first P f xs) = length xs"
  by (induction xs) simp_all

lemma round_and_elimination_totals:
  "map totalScore (players (round_and_elimination room)) = map totalScore (players room)"
  by (simp add: round_and_elimination_def Let_def o_def)

lemma map_update_same: "(map f xs)[i := f (xs ! i)] = map f xs"
  by (simp add: map_update [symmetric])

lemma round_and_elimination_B_totals:
  "map totalScore (players (snd (round_and_elimination_B room))) = map totalScore (players room)"
  by (simp add: round_and_elimination_B_def map_update map_update_same split: option.splits)

lemma round_and_elimination_B_sigs:
  "Celebration \<notin> set (fst (round_and_elimination_B room))"
  by (simp add: round_and_elimination_B_def split: option.splits)


lemma declare_show_unfold:
  assumes "openJoker room = Some oj"
    and "find (\<lambda>p. \<not> eliminated p \<and> id_player p = sid) (players room) = Some c"
  shows "declare_show sid room =
     (if js_lt (calculateScore (hand c) (rank oj))
           (Math_min (map (\<lambda>p. calculateScore (hand p) (rank oj))
              (filter (\<lambda>q. \<not> eliminated q \<and> id_player q \<noteq> sid) (players room))))
      then Inr ([Celebration, Room_data],
             round_and_elimination (room\<lparr>players :=
               map (\<lambda>p. if \<not> eliminated p \<and> id_player p \<noteq> sid
                         then p\<lparr>totalScore := js_add (totalScore p)
                                  (calculateScore (hand p) (rank oj))\<rparr>
                         else p) (players room)\<rparr>))
      else Inr ([Penalty, Room_data],
             round_and_elimination (room\<lparr>players :=
               update_first (\<lambda>p. id_player p = sid)
                 (\<lambda>p. p\<lparr>totalScore := js_add (totalScore p)
                          (js_add (calculateScore (hand c) (rank oj)) (Fin 25))\<rparr>)
                 (players room)\<rparr>)))"
  using assms by (simp add: declare_show_def find_scores other_scores Let_def)

lemma declare_show_B_unfold:
  assumes "openJoker room = Some oj"
    and "find (\<lambda>p. \<not> eliminated p \<and> id_player p = sid) (players room) = Some c"
  shows "declare_show_B sid room =
     (if js_lt (calculateScore_B (hand c) (rank oj))
           (Math_min (map (\<lambda>p. calculateScore_B (hand p) (rank oj))
              (filter (\<lambda>q. \<not> eliminated q \<and> id_player q \<noteq> sid) (players room))))
      then Inr (Celebration # fst (round_and_elimination_B (room\<lparr>players :=
               map (\<lambda>p. if \<not> eliminated p \<and> id_player p \<noteq> sid
                         then p\<lparr>totalScore := js_add (totalScore p)
                                  (calculateScore_B (hand p) (rank oj))\<rparr>
                         else p) (players room)\<rparr>)),
             snd (round_and_elimination_B (room\<lparr>players :=
               map (\<lambda>p. if \<not> eliminated p \<and> id_player p \<noteq> sid
                         then p\<lparr>totalScore := js_add (totalScore p)
                                  (calculateScore_B (hand p) (rank oj))\<rparr>
                         else p) (players room)\<rparr>)))
      else Inr (fst (round_and_elimination_B (room\<lparr>players :=
               update_first (\<lambda>p. id_player p = sid)
                 (\<lambda>p. p\<lparr>totalScore := js_add (totalScore p)
                          (Math_max [calculateScore_B (hand c) (rank oj), Fin 25])\<rparr>)
                 (players room)\<rparr>)),
             snd (round_and_elimination_B (room\<lparr>players :=
               update_first (\<lambda>p. id_player p = sid)
                 (\<lambda>p. p\<lparr>totalScore := js_add (totalScore p)
                          (Math_max [calculateScore_B (hand c) (rank oj), Fin 25])\<rparr>)
                 (players room)\<rparr>))))"
  using assms
  by (simp add: declare_show_B_def find_scores other_scores Let_def split_beta)


lemma nth_totals:
  assumes "map totalScore ps' = map totalScore ps" and "j < length ps"
  shows "totalScore (ps' ! j) = totalScore (ps ! j)"
proof -
  have "length ps' = length ps" using arg_cong [OF assms(1), of length] by simp
  with assms(2) have "map totalScore ps' ! j = totalScore (ps' ! j)"
    and "map totalScore ps ! j = totalScore (ps ! j)" by simp_all
  with assms(1) show ?thesis by simp
qed

lemma find_caller_entry:
  assumes "find (\<lambda>p. \<not> eliminated p \<and> id_player p = sid) ps = Some c"
  shows "\<exists>x. find (\<lambda>p. id_player p = sid) ps = Some x"
proof -
  from assms have "c \<in> set ps \<and> id_player c = sid"
    by (auto simp add: find_Some_iff)
  then show ?thesis by (cases "find (\<lambda>p. id_player p = sid) ps") (auto simp add: find_None_iff)
qed

lemma penalty_entry:
  assumes "find (\<lambda>p. \<not> eliminated p \<and> id_player p = sid) ps = Some c"
    and "map totalScore ps' =
         map totalScore (update_first (\<lambda>p. id_player p = sid)
           (\<lambda>p. p\<lparr>totalScore := js_add (totalScore p) v\<rparr>) ps)"
  shows "\<exists>i < length ps. id_player (ps ! i) = sid
           \<and> totalScore (ps' ! i) = js_add (totalScore (ps ! i)) v
           \<and> (\<forall>j < length ps. j \<noteq> i \<longrightarrow> totalScore (ps' ! j) = totalScore (ps ! j))"
proof -
  let ?f = "\<lambda>p. p\<lparr>totalScore := js_add (totalScore p) v\<rparr>"
  obtain x where "find (\<lambda>p. id_player p = sid) ps = Some x"
    using find_caller_entry [OF assms(1)] by blast
  from update_first_index [OF this, of ?f]
  obtain i where i: "i < length ps" "ps ! i = x" "id_player x = sid"
    "update_first (\<lambda>p. id_player p = sid) ?f ps = ps[i := ?f x]" by blast
  have "map totalScore ps' = map totalScore (ps[i := ?f x])"
    using assms(2) by (simp only: i(4))
  then have "\<And>j. j < length (ps[i := ?f x]) \<Longrightarrow>
               totalScore (ps' ! j) = totalScore (ps[i := ?f x] ! j)"
    by (rule nth_totals)
  then show ?thesis using i by (intro exI [of _ i]) (simp add: nth_list_update)
qed

lemma show_resolutionI:
  assumes c: "find (\<lambda>p. \<not> eliminated p \<and> id_player p = sid) (players room) = Some c"
    and other: "\<exists>q \<in> set (players room). \<not> eliminated q \<and> id_player q \<noteq> sid"
    and result: "result =
        (if js_lt (score c) (Math_min (map score
              (filter (\<lambda>q. \<not> eliminated q \<and> id_player q \<noteq> sid) (players room))))
         then Inr (sigs1, r1) else Inr (sigs2, r2))"
    and sigs: "Celebration \<in> set sigs1" "Celebration \<notin> set sigs2"
    and r1: "map totalScore (players r1) =
             map totalScore (map (\<lambda>p. if \<not> eliminated p \<and> id_player p \<noteq> sid
                then p\<lparr>totalScore := js_add (totalScore p) (score p)\<rparr> else p) (players room))"
    and r2: "map totalScore (players r2) =
             map totalScore (update_first (\<lambda>p. id_player p = sid)
               (\<lambda>p. p\<lparr>totalScore := js_add (totalScore p) (penalty (score c))\<rparr>) (players room))"
  shows "show_resolution penalty score sid c room result"
proof -
  let ?others = "filter (\<lambda>q. \<not> eliminated q \<and> id_player q \<noteq> sid) (players room)"
  define success where "success \<longleftrightarrow> (\<forall>q \<in> set ?others. js_lt (score c) (score q))"
  have ne: "map score ?others \<noteq> []"
    using other by (auto simp add: filter_empty_conv)
  have "js_lt (score c) (Math_min (map score ?others)) \<longleftrightarrow> success"
    unfolding success_def using js_lt_Math_min_nonempty [OF ne] by simp
  with result have res: "result = (if success then Inr (sigs1, r1) else Inr (sigs2, r2))"
    by simp
  have unfold: "\<And>r. show_resolution penalty score sid c room r =
     (case r of
        Inl e \<Rightarrow> False
      | Inr (sigs, room') \<Rightarrow>
          length (players room') = length (players room) \<and>
          (if success then
             Celebration \<in> set sigs \<and>
             (\<forall>j < length (players room).
                totalScore (players room' ! j) =
                  (if \<not> eliminated (players room ! j) \<and> id_player (players room ! j) \<noteq> sid
                   then js_add (totalScore (players room ! j)) (score (players room ! j))
                   else totalScore (players room ! j)))
           else
             Celebration \<notin> set sigs \<and>
             (\<exists>i < length (players room).
                id_player (players room ! i) = sid \<and>
                totalScore (players room' ! i) =
                  js_add (totalScore (players room ! i)) (penalty (score c)) \<and>
                (\<forall>j < length (players room). j \<noteq> i \<longrightarrow>
                   totalScore (players room' ! j) = totalScore (players room ! j)))))"
    unfolding show_resolution_def Let_def success_def ..
  show ?thesis
  proof (cases success)
    case True
    have len: "length (players r1) = length (players room)"
      using arg_cong [OF r1, of length] by simp
    have "\<And>j. j < length (players room) \<Longrightarrow>
            totalScore (players r1 ! j) =
              (if \<not> eliminated (players room ! j) \<and> id_player (players room ! j) \<noteq> sid
               then js_add (totalScore (players room ! j)) (score (players room ! j))
               else totalScore (players room ! j))"
      using nth_totals [OF r1] by simp
    with True sigs len show ?thesis
      unfolding unfold res by simp
  next
    case False
    have len: "length (players r2) = length (players room)"
      using arg_cong [OF r2, of length] by (simp add: length_update_first)
    from penalty_entry [OF c r2] False sigs len show ?thesis
      unfolding unfold res by simp
  qed
qed

text \<open>
  \<^bold>\<open>Claim C1.\<close> In a room where the game has started, let the caller be an active
  player and let there be another active player. Then \<open>declare_show\<close> resolves as a
  successful show if and only if the caller's score is strictly less than the score of
  every other active player. On success each other active player's total grows by that
  player's score and no other total changes, the caller's included. Otherwise (a tie
  included) only the caller's total changes: it grows by the caller's score plus 25 in one
  variant of the server, by the larger of the caller's score and 25 in the other.
\<close>

theorem declare_show_resolution:
  assumes "openJoker room = Some oj"
    and "find (\<lambda>p. \<not> eliminated p \<and> id_player p = sid) (players room) = Some c"
    and "\<exists>q \<in> set (players room). \<not> eliminated q \<and> id_player q \<noteq> sid"
  shows "show_resolution (\<lambda>s. js_add s (Fin 25)) (\<lambda>p. calculateScore (hand p) (rank oj))
           sid c room (declare_show sid room)
       \<and> show_resolution (\<lambda>s. Math_max [s, Fin 25]) (\<lambda>p. calculateScore_B (hand p) (rank oj))
           sid c room (declare_show_B sid room)"
proof
  show "show_resolution (\<lambda>s. js_add s (Fin 25)) (\<lambda>p. calculateScore (hand p) (rank oj))
          sid c room (declare_show sid room)"
    by (rule show_resolutionI [OF assms(2,3) declare_show_unfold [OF assms(1,2)]])
      (simp_all add: round_and_elimination_totals)
  show "show_resolution (\<lambda>s. Math_max [s, Fin 25]) (\<lambda>p. calculateScore_B (hand p) (rank oj))
          sid c room (declare_show_B sid room)"
    by (rule show_resolutionI [OF assms(2,3) declare_show_B_unfold [OF assms(1,2)]])
      (simp_all add: round_and_elimination_B_totals round_and_elimination_B_sigs)
qed


lemma ex_scores:
  "calculateScore (hand alice) ''K'' = Fin 5" "calculateScore (hand bob) ''K'' = Fin 9"
  "calculateScore_B (hand alice) ''K'' = Fin 5" "calculateScore_B (hand bob) ''K'' = Fin 9"
  by (simp_all add: alice_def bob_def calculateScore_def score_step_def
      calculateScore_B_def score_step_B_def parseInt_numeric)

theorem declare_show_resolution_witness:
  "openJoker example_room = Some king_of_diamonds
   \<and> find (\<lambda>p. \<not> eliminated p \<and> id_player p = ''s1'') (players example_room) = Some alice
   \<and> (\<exists>q \<in> set (players example_room). \<not> eliminated q \<and> id_player q \<noteq> ''s1'')
   \<and> show_resolution (\<lambda>s. js_add s (Fin 25)) (\<lambda>p. calculateScore (hand p) ''K'')
         ''s1'' alice example_room (declare_show ''s1'' example_room)
   \<and> show_resolution (\<lambda>s. Math_max [s, Fin 25]) (\<lambda>p. calculateScore_B (hand p) ''K'')
         ''s1'' alice example_room (declare_show_B ''s1'' example_room)"
proof -
  have 1: "openJoker example_room = Some king_of_diamonds"
    by (simp add: example_room_def)
  have 2: "find (\<lambda>p. \<not> eliminated p \<and> id_player p = ''s1'') (players example_room) = Some alice"
    by (simp add: example_room_def alice_def)
  have 3: "\<exists>q \<in> set (players example_room). \<not> eliminated q \<and> id_player q \<noteq> ''s1''"
    by (simp add: example_room_def alice_def bob_def carol_def)
  show ?thesis
    using 1 2 3 declare_show_resolution [OF 1 2 3] by (simp add: king_of_diamonds_def)
qed


section \<open>The scenario with scores 5 and 9\<close>

lemma find_filter: "find (\<lambda>x. P x \<and> Q x) xs = find Q (filter P xs)"
  by (induction xs) simp_all

lemma filter_conj: "filter (\<lambda>x. P x \<and> Q x) xs = filter Q (filter P xs)"
  by (induction xs) simp_all

lemma two_active:
  assumes "filter (\<lambda>p. \<not> eliminated p) ps = [p, q] \<or> filter (\<lambda>p. \<not> eliminated p) ps = [q, p]"
    and "id_player p = sid" and "id_player q \<noteq> sid"
  shows "find (\<lambda>x. \<not> eliminated x \<and> id_player x = sid) ps = Some p"
    and "filter (\<lambda>x. \<not> eliminated x \<and> id_player x \<noteq> sid) ps = [q]"
proof -
  have f: "find (\<lambda>x. \<not> eliminated x \<and> id_player x = sid) ps
           = find (\<lambda>x. id_player x = sid) (filter (\<lambda>p. \<not> eliminated p) ps)"
    by (rule find_filter)
  have g: "filter (\<lambda>x. \<not> eliminated x \<and> id_player x \<noteq> sid) ps
           = filter (\<lambda>x. id_player x \<noteq> sid) (filter (\<lambda>p. \<not> eliminated p) ps)"
    by (rule filter_conj)
  from assms(1) show "find (\<lambda>x. \<not> eliminated x \<and> id_player x = sid) ps = Some p"
    unfolding f using assms(2,3) by (elim disjE) simp_all
  from assms(1) show "filter (\<lambda>x. \<not> eliminated x \<and> id_player x \<noteq> sid) ps = [q]"
    unfolding g using assms(2,3) by (elim disjE) simp_all
qed

lemma active_after_success:
  "length (filter ((\<lambda>p. \<not> eliminated p) \<circ> (\<lambda>p. if C p then p\<lparr>totalScore := f p\<rparr> else p)) ps)
   = length (filter (\<lambda>p. \<not> eliminated p) ps)"
  by (induction ps) simp_all

lemma round_and_elimination_below_limit:
  "currentRound room < roundLimit room \<Longrightarrow>
   round_and_elimination room =
     room\<lparr>currentRound := currentRound room + 1,
          status := (if length (filter (\<lambda>p. \<not> eliminated p) (players room)) \<le> 1
                     then WINNER else LOBBY)\<rparr>"
  by (simp add: round_and_elimination_def)

lemma round_and_elimination_B_below_limit:
  "currentRound room < roundLimit room \<Longrightarrow>
   round_and_elimination_B room =
     ([Room_data], room\<lparr>currentRound := currentRound room + 1, status := LOBBY\<rparr>)"
  by (simp add: round_and_elimination_B_def)

lemma scenario_outcomeI:
  assumes active: "filter (\<lambda>p. \<not> eliminated p) (players room) = [p, q]
                 \<or> filter (\<lambda>p. \<not> eliminated p) (players room) = [q, p]"
    and ids: "id_player p = sid" "id_player q \<noteq> sid"
    and score: "score q = Fin 9"
    and sigs: "Celebration \<in> set sigs"
    and totals: "map totalScore (players room') =
       map totalScore (map (\<lambda>p. if \<not> eliminated p \<and> id_player p \<noteq> sid
          then p\<lparr>totalScore := js_add (totalScore p) (score p)\<rparr> else p) (players room))"
    and round: "currentRound room < roundLimit room \<Longrightarrow>
       status room' = LOBBY \<and> currentRound room' = currentRound room + 1"
  shows "scenario_outcome sid room (Inr (sigs, room'))"
proof -
  have len: "length (players room') = length (players room)"
    using arg_cong [OF totals, of length] by simp
  have other: "\<And>x. x \<in> set (players room) \<Longrightarrow> \<not> eliminated x \<Longrightarrow> id_player x \<noteq> sid \<Longrightarrow> x = q"
  proof -
    fix x assume "x \<in> set (players room)" "\<not> eliminated x" "id_player x \<noteq> sid"
    then have "x \<in> set (filter (\<lambda>x. \<not> eliminated x \<and> id_player x \<noteq> sid) (players room))"
      by simp
    then show "x = q" unfolding two_active(2) [OF active ids] by simp
  qed
  have "\<And>j. j < length (players room) \<Longrightarrow>
          totalScore (players room' ! j) =
            (if \<not> eliminated (players room ! j) \<and> id_player (players room ! j) \<noteq> sid
             then js_add (totalScore (players room ! j)) (Fin 9)
             else totalScore (players room ! j))"
    using nth_totals [OF totals] other [OF nth_mem] score by auto
  with len sigs round show ?thesis by (simp add: scenario_outcome_def)
qed

text \<open>
  \<^bold>\<open>Claim C7.\<close> In a room with exactly two active players, whose hands score 5 and 9
  under the open joker, let the player with score 5 call \<open>declare_show\<close>. The show
  succeeds, the caller's total is unchanged, the other active player's total grows by
  exactly 9, and no eliminated player's total changes. When the current round is below the
  round limit, the status becomes \<open>LOBBY\<close> and the current round grows by exactly 1. This
  holds in both variants of the server.
\<close>

theorem declare_show_scenario_5_and_9:
  assumes oj: "openJoker room = Some oj"
    and active: "filter (\<lambda>p. \<not> eliminated p) (players room) = [p, q]
               \<or> filter (\<lambda>p. \<not> eliminated p) (players room) = [q, p]"
    and ids: "id_player p = sid" "id_player q \<noteq> sid"
  shows "(calculateScore (hand p) (rank oj) = Fin 5 \<and> calculateScore (hand q) (rank oj) = Fin 9
            \<longrightarrow> scenario_outcome sid room (declare_show sid room))
       \<and> (calculateScore_B (hand p) (rank oj) = Fin 5 \<and> calculateScore_B (hand q) (rank oj) = Fin 9
            \<longrightarrow> scenario_outcome sid room (declare_show_B sid room))"
proof (intro conjI impI)
  note c = two_active(1) [OF active ids]
  note others = two_active(2) [OF active ids]
  have two: "length (filter (\<lambda>p. \<not> eliminated p) (players room)) = 2"
    using active by auto
  {
    assume s: "calculateScore (hand p) (rank oj) = Fin 5 \<and> calculateScore (hand q) (rank oj) = Fin 9"
    let ?ps = "map (\<lambda>p. if \<not> eliminated p \<and> id_player p \<noteq> sid
                 then p\<lparr>totalScore := js_add (totalScore p) (calculateScore (hand p) (rank oj))\<rparr>
                 else p) (players room)"
    have r: "declare_show sid room =
               Inr ([Celebration, Room_data], round_and_elimination (room\<lparr>players := ?ps\<rparr>))"
      unfolding declare_show_unfold [OF oj c] others using s by (simp add: Math_min_def)
    show "scenario_outcome sid room (declare_show sid room)"
      unfolding r
      by (rule scenario_outcomeI [OF active ids, where score = "\<lambda>p. calculateScore (hand p) (rank oj)"])
        (simp_all add: s round_and_elimination_totals round_and_elimination_below_limit
          active_after_success two)
  }
  {
    assume s: "calculateScore_B (hand p) (rank oj) = Fin 5 \<and> calculateScore_B (hand q) (rank oj) = Fin 9"
    let ?ps = "map (\<lambda>p. if \<not> eliminated p \<and> id_player p \<noteq> sid
                 then p\<lparr>totalScore := js_add (totalScore p) (calculateScore_B (hand p) (rank oj))\<rparr>
                 else p) (players room)"
    have r: "declare_show_B sid room =
               Inr (Celebration # fst (round_and_elimination_B (room\<lparr>players := ?ps\<rparr>)),
                    snd (round_and_elimination_B (room\<lparr>players := ?ps\<rparr>)))"
      unfolding declare_show_B_unfold [OF oj c] others using s by (simp add: Math_min_def)
    show "scenario_outcome sid room (declare_show_B sid room)"
      unfolding r
      by (rule scenario_outcomeI [OF active ids, where score = "\<lambda>p. calculateScore_B (hand p) (rank oj)"])
        (simp_all add: s round_and_elimination_B_totals round_and_elimination_B_below_limit)
  }
qed

theorem declare_show_scenario_5_and_9_witness:
  "openJoker example_room = Some king_of_diamonds
   \<and> filter (\<lambda>p. \<not> eliminated p) (players example_room) = [alice, bob]
   \<and> id_player alice = ''s1'' \<and> id_player bob \<noteq> ''s1''
   \<and> calculateScore (hand alice) (rank king_of_diamonds) = Fin 5
   \<and> calculateScore (hand bob) (rank king_of_diamonds) = Fin 9
   \<and> calculateScore_B (hand alice) (rank king_of_diamonds) = Fin 5
   \<and> calculateScore_B (hand bob) (rank king_of_diamonds) = Fin 9
   \<and> currentRound example_room < roundLimit example_room
   \<and> scenario_outcome ''s1'' example_room (declare_show ''s1'' example_room)
   \<and> scenario_outcome ''s1'' example_room (declare_show_B ''s1'' example_room)"
proof -
  have 1: "openJoker example_room = Some king_of_diamonds"
    by (simp add: example_room_def)
  have 2: "filter (\<lambda>p. \<not> eliminated p) (players example_room) = [alice, bob]
         \<or> filter (\<lambda>p. \<not> eliminated p) (players example_room) = [bob, alice]"
    by (simp add: example_room_def alice_def bob_def carol_def)
  have 3: "id_player alice = ''s1''" "id_player bob \<noteq> ''s1''"
    by (simp_all add: alice_def bob_def)
  have 4: "rank king_of_diamonds = ''K''" by (simp add: king_of_diamonds_def)
  have 5: "filter (\<lambda>p. \<not> eliminated p) (players example_room) = [alice, bob]"
    by (simp add: example_room_def alice_def bob_def carol_def)
  have 6: "currentRound example_room < roundLimit example_room"
    by (simp add: example_room_def)
  show ?thesis
    using 1 3 5 6 declare_show_scenario_5_and_9 [OF 1 2 3] by (simp add: 4 ex_scores)
qed

section \<open>A show by the only active player\<close>

text \<open>
  When the caller is the only active player of a room where the game has started, there is
  no other score and \<open>Math.min()\<close> is \<open>Infinity\<close>. The test of the show is then
  \<open>callerScore < Infinity\<close>, which holds of every number and fails for \<open>NaN\<close>. For a
  caller whose hand holds cards of the data model the score is a number and the show
  succeeds: the celebration is signalled and no total changes, in both variants of the
  server.
\<close>

theorem declare_show_sole_active_player:
  assumes oj: "openJoker room = Some oj"
    and c: "find (\<lambda>p. \<not> eliminated p \<and> id_player p = sid) (players room) = Some c"
    and alone: "\<forall>q \<in> set (players room). \<not> eliminated q \<longrightarrow> id_player q = sid"
    and hand: "data_model_hand (hand c)"
  shows "(\<exists>room'. declare_show sid room = Inr ([Celebration, Room_data], room')
            \<and> map totalScore (players room') = map totalScore (players room))
       \<and> (\<exists>sigs room'. declare_show_B sid room = Inr (Celebration # sigs, room')
            \<and> map totalScore (players room') = map totalScore (players room))"
proof -
  have none: "filter (\<lambda>q. \<not> eliminated q \<and> id_player q \<noteq> sid) (players room) = []"
    using alone by (auto simp add: filter_empty_conv)
  have same: "\<And>f. map (\<lambda>p. if \<not> eliminated p \<and> id_player p \<noteq> sid
                  then p\<lparr>totalScore := f p\<rparr> else p) (players room) = players room"
    using alone by (intro map_idI) auto
  have a: "declare_show sid room =
             Inr ([Celebration, Room_data], round_and_elimination (room\<lparr>players := players room\<rparr>))"
    unfolding declare_show_unfold [OF oj c] none same
    by (simp add: Math_min_def calculateScore_data_model [OF hand])
  have b: "declare_show_B sid room =
             Inr (Celebration # fst (round_and_elimination_B (room\<lparr>players := players room\<rparr>)),
                  snd (round_and_elimination_B (room\<lparr>players := players room\<rparr>)))"
    unfolding declare_show_B_unfold [OF oj c] none same
    by (simp add: Math_min_def calculateScore_B_data_model [OF hand])
  show ?thesis
    unfolding a b by (simp add: round_and_elimination_totals round_and_elimination_B_totals)
qed


theorem declare_show_sole_active_player_witness:
  "openJoker sole_room = Some king_of_diamonds
   \<and> find (\<lambda>p. \<not> eliminated p \<and> id_player p = ''s1'') (players sole_room) = Some alice
   \<and> list_all (\<lambda>q. eliminated q \<or> id_player q = ''s1'') (players sole_room)
   \<and> data_model_hand (hand alice)
   \<and> (\<exists>room'. declare_show ''s1'' sole_room = Inr ([Celebration, Room_data], room')
         \<and> map totalScore (players room') = [Fin 3, Fin 40])
   \<and> (\<exists>sigs room'. declare_show_B ''s1'' sole_room = Inr (Celebration # sigs, room')
         \<and> map totalScore (players room') = [Fin 3, Fin 40])"
proof -
  have 1: "openJoker sole_room = Some king_of_diamonds"
    by (simp add: sole_room_def example_room_def)
  have 2: "find (\<lambda>p. \<not> eliminated p \<and> id_player p = ''s1'') (players sole_room) = Some alice"
    by (simp add: sole_room_def alice_def)
  have 3: "\<forall>q \<in> set (players sole_room). \<not> eliminated q \<longrightarrow> id_player q = ''s1''"
    by (simp add: sole_room_def alice_def carol_def)
  have 4: "data_model_hand (hand alice)"
    by (auto simp add: data_model_hand_def data_model_rank_def ranks_def alice_def)
  have 5: "map totalScore (players sole_room) = [Fin 3, Fin 40]"
    by (simp add: sole_room_def alice_def carol_def)
  have 6: "list_all (\<lambda>q. eliminated q \<or> id_player q = ''s1'') (players sole_room)"
    by (simp add: sole_room_def alice_def carol_def)
  show ?thesis
    using 1 2 6 4 declare_show_sole_active_player [OF 1 2 3 4] unfolding 5 by simp
qed

section \<open>Leaving a room\<close>

lemma findIndex_ge: "- 1 \<le> findIndex P xs"
  by (induction xs) (simp_all add: Let_def)

lemma findIndex_none: "findIndex P xs = - 1 \<longleftrightarrow> (\<forall>x \<in> set xs. \<not> P x)"
proof (induction xs)
  case Nil
  then show ?case by simp
next
  case (Cons a xs)
  show ?case using Cons.IH findIndex_ge [of P xs] by (auto simp add: Let_def)
qed

lemma findIndex_first:
  "\<exists>x \<in> set xs. P x \<Longrightarrow>
   \<exists>i < length xs. findIndex P xs = int i \<and> P (xs ! i) \<and> (\<forall>j < i. \<not> P (xs ! j))"
proof (induction xs)
  case Nil
  then show ?case by simp
next
  case (Cons a xs)
  show ?case
  proof (cases "P a")
    case True
    then show ?thesis by (intro exI [of _ 0]) simp
  next
    case False
    with Cons.prems have "\<exists>x \<in> set xs. P x" by simp
    from Cons.IH [OF this] obtain i where i: "i < length xs" "findIndex P xs = int i"
      "P (xs ! i)" "\<forall>j < i. \<not> P (xs ! j)" by blast
    show ?thesis using False i
      by (intro exI [of _ "Suc i"]) (auto simp add: less_Suc_eq_0_disj)
  qed
qed

lemma disconnect_room_outcome: "leave_outcome sid room (disconnect_room sid room)"
proof (cases "\<forall>p \<in> set (players room). id_player p \<noteq> sid")
  case True
  then have "findIndex (\<lambda>p. id_player p = sid) (players room) = - 1"
    by (simp add: findIndex_none)
  with True show ?thesis by (simp add: leave_outcome_def disconnect_room_def)
next
  case False
  then have "\<exists>x \<in> set (players room). id_player x = sid" by simp
  from findIndex_first [OF this] obtain i where i: "i < length (players room)"
    "findIndex (\<lambda>p. id_player p = sid) (players room) = int i"
    "id_player (players room ! i) = sid" "\<forall>j < i. id_player (players room ! j) \<noteq> sid"
    by blast
  have "disconnect_room sid room =
     (let remaining = take i (players room) @ drop (Suc i) (players room)
      in if remaining = [] then None
         else Some (room\<lparr>players := remaining,
                hostId := (if hostId room = sid then id_player (hd remaining) else hostId room)\<rparr>))"
    using i(1,2) by (simp add: disconnect_room_def Let_def hd_conv_nth)
  with False i show ?thesis
    unfolding leave_outcome_def by (auto simp add: Let_def)
qed

lemma distinct_remove_nth:
  assumes "distinct (map f xs)" "i < length xs"
  shows "take i xs @ drop (Suc i) xs = filter (\<lambda>x. f x \<noteq> f (xs ! i)) xs"
proof -
  have xs: "xs = take i xs @ xs ! i # drop (Suc i) xs"
    using assms(2) by (simp add: id_take_nth_drop)
  have d: "distinct (map f (take i xs @ xs ! i # drop (Suc i) xs))"
    using assms(1) xs by simp
  have a: "filter (\<lambda>x. f x \<noteq> f (xs ! i)) (take i xs) = take i xs"
    using d by (auto simp add: filter_id_conv) (metis imageI)
  have b: "filter (\<lambda>x. f x \<noteq> f (xs ! i)) (drop (Suc i) xs) = drop (Suc i) xs"
    using d by (auto simp add: filter_id_conv) (metis imageI)
  have "filter (\<lambda>x. f x \<noteq> f (xs ! i)) (take i xs @ xs ! i # drop (Suc i) xs)
        = take i xs @ drop (Suc i) xs"
    by (simp add: a b)
  with xs show ?thesis by simp
qed

text \<open>
  The \<open>disconnect\<close> handler of the variant with the staging slot does what claim C8
  says. It leaves untouched every room where the socket has no player and creates no
  room. In a room where it has one, the player is removed from the sequence and the
  others keep their order; when the room becomes empty it is removed from the registry;
  otherwise, when the departing socket was the host, the first remaining player becomes
  the host, and nothing else changes. With pairwise distinct player ids, no player of the
  socket remains.
\<close>

theorem disconnect_removes_player:
  "(rooms rid = None \<longrightarrow> disconnect sid rooms rid = None)
   \<and> (\<forall>room. rooms rid = Some room \<longrightarrow>
         leave_outcome sid room (disconnect sid rooms rid)
         \<and> (distinct (map id_player (players room)) \<longrightarrow>
              (case disconnect sid rooms rid of
                 None \<Rightarrow> \<forall>p \<in> set (players room). id_player p = sid
               | Some room' \<Rightarrow>
                   players room' = filter (\<lambda>p. id_player p \<noteq> sid) (players room))))"
proof (intro conjI allI impI)
  assume "rooms rid = None"
  then show "disconnect sid rooms rid = None" by (simp add: disconnect_def)
next
  fix room assume r: "rooms rid = Some room"
  then have d: "disconnect sid rooms rid = disconnect_room sid room"
    by (simp add: disconnect_def)
  show "leave_outcome sid room (disconnect sid rooms rid)"
    unfolding d by (rule disconnect_room_outcome)
  assume dist: "distinct (map id_player (players room))"
  show "case disconnect sid rooms rid of
          None \<Rightarrow> \<forall>p \<in> set (players room). id_player p = sid
        | Some room' \<Rightarrow> players room' = filter (\<lambda>p. id_player p \<noteq> sid) (players room)"
  proof (cases "\<forall>p \<in> set (players room). id_player p \<noteq> sid")
    case True
    then have "disconnect_room sid room = Some room"
      using disconnect_room_outcome [of sid room] by (simp add: leave_outcome_def)
    with True show ?thesis unfolding d by (simp add: filter_id_conv)
  next
    case False
    with disconnect_room_outcome [of sid room]
    obtain i where i: "i < length (players room)" "id_player (players room ! i) = sid"
      and res: "let remaining = take i (players room) @ drop (Suc i) (players room)
           in if remaining = [] then disconnect_room sid room = None
              else disconnect_room sid room = Some (room\<lparr>players := remaining,
                     hostId := (if hostId room = sid then id_player (hd remaining)
                                else hostId room)\<rparr>)"
      unfolding leave_outcome_def by auto
    have rem: "take i (players room) @ drop (Suc i) (players room)
               = filter (\<lambda>p. id_player p \<noteq> sid) (players room)"
      using distinct_remove_nth [OF dist i(1)] i(2) by simp
    show ?thesis
    proof (cases "filter (\<lambda>p. id_player p \<noteq> sid) (players room) = []")
      case True
      with res rem have "disconnect_room sid room = None" by simp
      with True show ?thesis unfolding d by (simp add: filter_empty_conv)
    next
      case False
      with res rem show ?thesis unfolding d by (simp add: Let_def)
    qed
  qed
qed

theorem disconnect_removes_player_witness:
  "example_rooms ''X7Q2'' = Some example_room
   \<and> distinct (map id_player (players example_room))
   \<and> leave_outcome ''s1'' example_room (disconnect ''s1'' example_rooms ''X7Q2'')
   \<and> disconnect ''s1'' example_rooms ''X7Q2''
       = Some (example_room\<lparr>players := [carol, bob], hostId := ''s3''\<rparr>)
   \<and> example_rooms ''K0P9'' = Some lonely_room
   \<and> disconnect ''s1'' example_rooms ''K0P9'' = None"
proof -
  have 1: "example_rooms ''X7Q2'' = Some example_room"
    by (simp add: example_rooms_def)
  have 2: "distinct (map id_player (players example_room))"
    by (simp add: example_room_def alice_def bob_def carol_def)
  have 3: "example_rooms ''K0P9'' = Some lonely_room"
    by (simp add: example_rooms_def)
  have 4: "disconnect ''s1'' example_rooms ''X7Q2''
           = Some (example_room\<lparr>players := [carol, bob], hostId := ''s3''\<rparr>)"
    by (simp add: disconnect_def 1 disconnect_room_def example_room_def alice_def bob_def
        carol_def Let_def)
  have 5: "disconnect ''s1'' example_rooms ''K0P9'' = None"
    by (simp add: disconnect_def 3 disconnect_room_def lonely_room_def example_room_def
        alice_def Let_def)
  from disconnect_removes_player [of example_rooms "''X7Q2''" "''s1''"] 1
  have 6: "leave_outcome ''s1'' example_room (disconnect ''s1'' example_rooms ''X7Q2'')"
    by blast
  from 1 2 6 4 3 5 show ?thesis by (intro conjI)
qed

text \<open>
  \<^bold>\<open>Claim C8\<close> is what the \<open>disconnect\<close> handler above does, and not what the
  \<open>disconnecting\<close> handler of \<open>server.js\<close> does: that one removes the players of the
  socket and deletes a room that becomes empty, but never assigns \<open>hostId\<close>. When alice,
  the host of the example room, leaves, carol and bob remain; with \<open>disconnect\<close> carol
  becomes the host, with \<open>disconnecting\<close> the host is still the socket that left.
\<close>

theorem disconnecting_B_keeps_departed_host:
  "map_option (\<lambda>r. (hostId r, map id_player (players r)))
     (disconnecting_B ''s1'' {''s1'', ''X7Q2''} example_rooms ''X7Q2'')
     = Some (''s1'', [''s3'', ''s2''])
   \<and> map_option (\<lambda>r. (hostId r, map id_player (players r)))
       (disconnect ''s1'' example_rooms ''X7Q2'')
     = Some (''s3'', [''s3'', ''s2''])
   \<and> disconnecting_B ''s1'' {''s1'', ''K0P9''} example_rooms ''K0P9'' = None"
  by (simp add: disconnecting_B_def disconnect_def disconnect_room_def example_rooms_def
      example_room_def lonely_room_def alice_def bob_def carol_def Let_def)

section \<open>Replacing a card\<close>















section \<open>The status of a room\<close>

lemma round_and_elimination_status:
  "status (round_and_elimination room) =
     (if length (filter (\<lambda>p. \<not> eliminated p) (players (round_and_elimination room))) \<le> 1
      then WINNER else LOBBY)"
  by (simp add: round_and_elimination_def Let_def)

lemma round_and_elimination_ignores_status:
  "round_and_elimination (room\<lparr>status := st\<rparr>) = round_and_elimination room"
  by (simp add: round_and_elimination_def Let_def)

lemma declare_show_status:
  "declare_show sid room = Inr (sigs, room') \<Longrightarrow>
   status room' = (if length (filter (\<lambda>p. \<not> eliminated p) (players room')) \<le> 1
                   then WINNER else LOBBY)"
  using round_and_elimination_status
  by (auto simp add: declare_show_def Let_def split: option.splits if_splits)

lemma declare_show_ignores_status:
  "declare_show sid (room\<lparr>status := st\<rparr>) = declare_show sid room"
proof -
  have "\<And>ps. round_and_elimination (room\<lparr>status := st, players := ps\<rparr>)
            = round_and_elimination (room\<lparr>players := ps\<rparr>)"
    by (simp add: round_and_elimination_def Let_def)
  then show ?thesis by (simp add: declare_show_def Let_def split: option.splits)
qed

lemma draw_card_ignores_status:
  "draw_card g sid (room\<lparr>status := st\<rparr>) = map_sum id (\<lambda>r. r\<lparr>status := st\<rparr>) (draw_card g sid room)"
  by (simp add: draw_card_def Let_def split_beta split: option.splits)

lemma replace_card_ignores_status:
  "replace_card sid cid (room\<lparr>status := st\<rparr>)
   = map_sum id (\<lambda>r. r\<lparr>status := st\<rparr>) (replace_card sid cid room)"
  by (simp add: replace_card_def Let_def split: option.splits sum.splits del: skip_eliminated.simps)

text \<open>
  \<^bold>\<open>Claim C2, as stated, fails.\<close> After \<open>short_game\<close> one active player is left
  and the status is \<open>WINNER\<close>. The requests that follow are served all the same:
  \<open>draw_card\<close> stages a card, \<open>replace_card\<close> puts it in the hand, and a further
  \<open>declare_show\<close> eliminates the last player.
\<close>

theorem winner_room_still_served:
  "view_after short_game ''R1ZQ''
     = Some (WINNER, 0,
         [(''s1'', False, Fin 0, [Some ''x7q2m1c01'', Some ''x7q2m1c02'', Some ''x7q2m1c03''], None),
          (''s2'', True, Fin 18, [Some ''x7q2m1c04'', Some ''x7q2m1c05'', Some ''x7q2m1c06''], None)])
   \<and> view_after (short_game @ [Draw_card ''R1ZQ'' ''s1'']) ''R1ZQ''
     = Some (WINNER, 0,
         [(''s1'', False, Fin 0, [Some ''x7q2m1c01'', Some ''x7q2m1c02'', Some ''x7q2m1c03''], Some ''x7q2m1c07''),
          (''s2'', True, Fin 18, [Some ''x7q2m1c04'', Some ''x7q2m1c05'', Some ''x7q2m1c06''], None)])
   \<and> view_after (short_game @ [Draw_card ''R1ZQ'' ''s1'', Replace_card ''R1ZQ'' ''s1'' ''x7q2m1c01'']) ''R1ZQ''
     = Some (WINNER, 0,
         [(''s1'', False, Fin 0, [Some ''x7q2m1c07'', Some ''x7q2m1c02'', Some ''x7q2m1c03''], None),
          (''s2'', True, Fin 18, [Some ''x7q2m1c04'', Some ''x7q2m1c05'', Some ''x7q2m1c06''], None)])
   \<and> view_after (short_game @ [Declare_show ''R1ZQ'' ''s1'']) ''R1ZQ''
     = Some (WINNER, 0,
         [(''s1'', True, Fin 0, [Some ''x7q2m1c01'', Some ''x7q2m1c02'', Some ''x7q2m1c03''], None),
          (''s2'', True, Fin 18, [Some ''x7q2m1c04'', Some ''x7q2m1c05'', Some ''x7q2m1c06''], None)])"
  by code_simp

text \<open>
  \<^bold>\<open>Claim C2, amended.\<close> After every \<open>declare_show\<close> that completes, the status is
  \<open>WINNER\<close> when at most one player is not eliminated, and \<open>LOBBY\<close> otherwise. The
  handlers \<open>draw_card\<close>, \<open>replace_card\<close> and \<open>declare_show\<close> never read the status:
  each serves a request in a room whose status is \<open>WINNER\<close> (or any other) exactly as
  in the same room with its former status.
\<close>

theorem status_after_show_and_never_read:
  "(\<forall>sigs room'. declare_show sid room = Inr (sigs, room') \<longrightarrow>
      status room' = (if length (filter (\<lambda>p. \<not> eliminated p) (players room')) \<le> 1
                      then WINNER else LOBBY))
   \<and> draw_card g sid (room\<lparr>status := st\<rparr>)
       = map_sum id (\<lambda>r. r\<lparr>status := st\<rparr>) (draw_card g sid room)
   \<and> replace_card sid cid (room\<lparr>status := st\<rparr>)
       = map_sum id (\<lambda>r. r\<lparr>status := st\<rparr>) (replace_card sid cid room)
   \<and> declare_show sid (room\<lparr>status := st\<rparr>) = declare_show sid room"
  using declare_show_status draw_card_ignores_status replace_card_ignores_status
    declare_show_ignores_status
  by blast

theorem status_after_show_and_never_read_witness:
  "(\<exists>sigs room'. declare_show ''s1'' example_room = Inr (sigs, room')
      \<and> length (filter (\<lambda>p. \<not> eliminated p) (players room')) = 2 \<and> status room' = LOBBY)
   \<and> (\<exists>sigs room'. declare_show ''s1'' sole_room = Inr (sigs, room')
      \<and> length (filter (\<lambda>p. \<not> eliminated p) (players room')) = 1 \<and> status room' = WINNER)"
proof -
  have "\<not> isl (declare_show ''s1'' example_room)" by code_simp
  then obtain sigs room' where a: "declare_show ''s1'' example_room = Inr (sigs, room')"
    by (cases "declare_show ''s1'' example_room") auto
  have "length (filter (\<lambda>p. \<not> eliminated p)
          (players (snd (projr (declare_show ''s1'' example_room))))) = 2"
    by code_simp
  with a have a2: "length (filter (\<lambda>p. \<not> eliminated p) (players room')) = 2" by simp
  have "\<not> isl (declare_show ''s1'' sole_room)" by code_simp
  then obtain sigs1 room1 where b: "declare_show ''s1'' sole_room = Inr (sigs1, room1)"
    by (cases "declare_show ''s1'' sole_room") auto
  have "length (filter (\<lambda>p. \<not> eliminated p)
          (players (snd (projr (declare_show ''s1'' sole_room))))) = 1"
    by code_simp
  with b have b2: "length (filter (\<lambda>p. \<not> eliminated p) (players room1)) = 1" by simp
  from status_after_show_and_never_read [of "''s1''" example_room] a a2
  have a3: "status room' = LOBBY" by simp
  from status_after_show_and_never_read [of "''s1''" sole_room] b b2
  have b3: "status room1 = WINNER" by simp
  from a a2 a3 b b2 b3 show ?thesis by blast
qed

section \<open>Totals never decrease\<close>

lemma new_player_ok: "player_ok (new_player sid name)"
  by (simp add: player_ok_def new_player_def data_model_hand_def)

lemma createDeck_ok:
  assumes "sort_permutes g" and "c \<in> set (createDeck g)"
  shows "data_model_rank (rank c)"
proof -
  from assms have "c \<in> set (ranked_cards g) \<or> c = joker ''Joker1'' \<or> c = joker ''Joker2''"
    by (auto simp add: createDeck_def sort_permutes_set)
  then show ?thesis
    using ranked_cards_ranks [of g] by (auto simp add: data_model_rank_def joker_def)
qed

lemma pop_cases:
  assumes "pop d = (c, d')"
  shows "set d' \<subseteq> set d" and "c = Some x \<Longrightarrow> x \<in> set d"
  using assms by (auto simp add: pop_def split: if_splits dest: in_set_butlastD)

lemma pop_ok:
  assumes "\<forall>c \<in> set d. data_model_rank (rank c)" and "pop d = (c, d')"
  shows "\<forall>c \<in> set d'. data_model_rank (rank c)"
    and "\<forall>x. c = Some x \<longrightarrow> data_model_rank (rank x)"
  using assms pop_cases [OF assms(2)] by auto

lemma deal_ok:
  assumes "\<forall>c \<in> set d. data_model_rank (rank c)"
    and "\<forall>p \<in> set ps. \<exists>n. totalScore p = Fin n"
    and "deal d ps = (ps', d')"
  shows "(\<forall>p \<in> set ps'. player_ok p) \<and> (\<forall>c \<in> set d'. data_model_rank (rank c))"
  using assms
proof (induction ps arbitrary: d ps' d')
  case Nil
  then show ?case by simp
next
  case (Cons p ps)
  show ?case
  proof (cases "eliminated p")
    case True
    obtain qs e where r: "deal d ps = (qs, e)" by (cases "deal d ps")
    from Cons.IH [OF Cons.prems(1) _ r] Cons.prems(2)
    have ih: "(\<forall>p \<in> set qs. player_ok p) \<and> (\<forall>c \<in> set e. data_model_rank (rank c))" by simp
    from Cons.prems(3) True r
    have "ps' = p\<lparr>currentDrawnCard := None, hand := []\<rparr> # qs" "d' = e" by simp_all
    with ih Cons.prems(2) show ?thesis
      by (simp add: player_ok_def data_model_hand_def)
  next
    case False
    obtain c1 d1 where p1: "pop d = (c1, d1)" by (cases "pop d")
    obtain c2 d2 where p2: "pop d1 = (c2, d2)" by (cases "pop d1")
    obtain c3 d3 where p3: "pop d2 = (c3, d3)" by (cases "pop d2")
    obtain qs e where r: "deal d3 ps = (qs, e)" by (cases "deal d3 ps")
    note o1 = pop_ok [OF Cons.prems(1) p1]
    note o2 = pop_ok [OF o1(1) p2]
    note o3 = pop_ok [OF o2(1) p3]
    from Cons.IH [OF o3(1) _ r] Cons.prems(2)
    have ih: "(\<forall>p \<in> set qs. player_ok p) \<and> (\<forall>c \<in> set e. data_model_rank (rank c))" by simp
    from Cons.prems(3) False p1 p2 p3 r
    have "ps' = p\<lparr>currentDrawnCard := None, hand := [c1, c2, c3]\<rparr> # qs" "d' = e" by simp_all
    with ih Cons.prems(2) o1(2) o2(2) o3(2) show ?thesis
      by (auto simp add: player_ok_def data_model_hand_def)
  qed
qed



lemma update_first_set:
  "p \<in> set (update_first P f xs) \<Longrightarrow> p \<in> set xs \<or> (\<exists>x \<in> set xs. P x \<and> p = f x)"
  by (induction xs) (auto split: if_splits)

lemma start_game_ok:
  assumes "room_ok room" and "sort_permutes g"
  shows "room_ok (start_game g sid room)"
proof (cases "hostId room = sid")
  case False
  with assms(1) show ?thesis by (simp add: start_game_def)
next
  case True
  obtain oj d1 where p: "pop (createDeck g) = (oj, d1)" by (cases "pop (createDeck g)")
  obtain ps d2 where d: "deal d1 (players room) = (ps, d2)" by (cases "deal d1 (players room)")
  have deck: "\<forall>c \<in> set (createDeck g). data_model_rank (rank c)"
    using createDeck_ok [OF assms(2)] by blast
  have tot: "\<forall>p \<in> set (players room). \<exists>n. totalScore p = Fin n"
    using assms(1) by (simp add: room_ok_def player_ok_def)
  from deal_ok [OF pop_ok(1) [OF deck p] tot d] True p d show ?thesis
    by (simp add: start_game_def room_ok_def)
qed

lemma draw_card_ok:
  assumes "room_ok room" and "sort_permutes g" and "draw_card g sid room = Inr room'"
  shows "room_ok room'"
proof (cases "nth_opt (players room) (turn room)")
  case None
  with assms(3) show ?thesis by (simp add: draw_card_def)
next
  case (Some current)
  show ?thesis
  proof (cases "id_player current = sid")
    case False
    with Some assms(1,3) show ?thesis by (simp add: draw_card_def)
  next
    case True
    let ?d = "if deck room = [] then createDeck g else deck room"
    obtain crd d' where p: "pop ?d = (crd, d')" by (cases "pop ?d")
    have deck: "\<forall>c \<in> set ?d. data_model_rank (rank c)"
      using createDeck_ok [OF assms(2)] assms(1) by (auto simp add: room_ok_def)
    note o = pop_ok [OF deck p]
    from Some True p assms(3)
    have r: "room' = room\<lparr>deck := d',
               players := update_first (\<lambda>p. id_player p = sid)
                            (\<lambda>p. p\<lparr>currentDrawnCard := crd\<rparr>) (players room)\<rparr>"
      by (simp add: draw_card_def Let_def)
    have "\<And>q. q \<in> set (players room) \<Longrightarrow> player_ok (q\<lparr>currentDrawnCard := crd\<rparr>)"
      using assms(1) o(2) by (simp add: room_ok_def player_ok_def)
    then have "\<forall>q \<in> set (players room'). player_ok q"
      using assms(1) unfolding r by (auto simp add: room_ok_def dest!: update_first_set)
    with o(1) show ?thesis unfolding r room_ok_def by simp
  qed
qed

lemma swap_card_ok:
  assumes "data_model_hand h" and "data_model_rank (rank drawn)"
    and "swap_card cid drawn h = Inr h'"
  shows "data_model_hand h'"
  using assms by (auto simp add: swap_card_def data_model_hand_def split: if_splits)

lemma replace_card_ok:
  assumes "room_ok room" and "replace_card sid cid room = Inr room'"
  shows "room_ok room'"
proof (cases "find (\<lambda>p. id_player p = sid) (players room)")
  case None
  with assms show ?thesis by (simp add: replace_card_def)
next
  case (Some pl)
  then have pl: "pl \<in> set (players room)" by (auto simp add: find_Some_iff)
  show ?thesis
  proof (cases "currentDrawnCard pl")
    case None
    with Some assms show ?thesis by (simp add: replace_card_def)
  next
    case drawn: (Some drawn)
    from assms(2) Some drawn obtain h where h: "swap_card cid drawn (hand pl) = Inr h"
      by (cases "swap_card cid drawn (hand pl)") (simp_all add: replace_card_def)
    let ?ps = "update_first (\<lambda>p. id_player p = sid)
                 (\<lambda>p. p\<lparr>hand := h, currentDrawnCard := None\<rparr>) (players room)"
    from assms(2) Some drawn h obtain nt where r: "room' = room\<lparr>players := ?ps, turn := nt\<rparr>"
      by (cases "skip_eliminated ?ps (js_rem (turn room + 1) (int (length ?ps))) 0")
        (auto simp add: replace_card_def Let_def simp del: skip_eliminated.simps)
    have ok: "player_ok pl" using assms(1) pl by (simp add: room_ok_def)
    with drawn have "data_model_hand h"
      using swap_card_ok [OF _ _ h] by (simp add: player_ok_def)
    then have "\<And>q. q \<in> set (players room) \<Longrightarrow>
                 player_ok (q\<lparr>hand := h, currentDrawnCard := None\<rparr>)"
      using assms(1) by (simp add: room_ok_def player_ok_def)
    then have "\<forall>q \<in> set ?ps. player_ok q"
      using assms(1) by (auto simp add: room_ok_def dest!: update_first_set)
    with assms(1) show ?thesis unfolding r room_ok_def by simp
  qed
qed

lemma disconnect_room_ok:
  assumes "room_ok room" and "disconnect_room sid room = Some room'"
  shows "room_ok room'"
proof -
  have "set (players room') \<subseteq> set (players room) \<and> deck room' = deck room"
    using assms(2)
    by (auto simp add: disconnect_room_def Let_def split: if_splits
        dest: in_set_takeD in_set_dropD)
  with assms(1) show ?thesis by (auto simp add: room_ok_def)
qed


lemma js_le_Fin: "js_le (Fin a) (Fin b) \<longleftrightarrow> a \<le> b"
  by (auto simp add: js_le_def js_eq_def)

lemma grown_refl: "player_ok p \<Longrightarrow> grown p p"
  by (auto simp add: grown_def player_ok_def js_le_Fin)


lemma grown_ok: "list_all2 grown ps ps' \<Longrightarrow> \<forall>q \<in> set ps'. player_ok q"
  by (auto simp add: grown_def list_all2_conv_all_nth in_set_conv_nth)

lemma score_nonneg:
  assumes "data_model_hand h"
  shows "\<exists>s\<ge>0. calculateScore h oj = Fin s" and "\<exists>s\<ge>0. calculateScore_B h oj = Fin s"
  using calculateScore_data_model [OF assms] calculateScore_B_data_model [OF assms]
    sum_contribution_nonneg [of 10 oj h] sum_contribution_nonneg [of 15 oj h]
  by auto

lemma grown_add:
  assumes "player_ok p" and "0 \<le> s"
  shows "grown p (p\<lparr>totalScore := js_add (totalScore p) (Fin s)\<rparr>)"
  using assms by (auto simp add: grown_def player_ok_def js_le_Fin)

lemma list_all2_map_self: "\<forall>p \<in> set ps. R p (f p) \<Longrightarrow> list_all2 R ps (map f ps)"
  by (simp add: list_all2_map2 list_all2_same)

lemma list_all2_update_first:
  "\<forall>p \<in> set ps. R p p \<and> R p (f p) \<Longrightarrow> list_all2 R ps (update_first P f ps)"
  by (induction ps) (simp_all add: list_all2_same)

lemma success_grown:
  assumes "\<forall>p \<in> set ps. player_ok p"
  shows "list_all2 grown ps
           (map (\<lambda>p. if \<not> eliminated p \<and> id_player p \<noteq> sid
                     then p\<lparr>totalScore := js_add (totalScore p) (calculateScore (hand p) r)\<rparr>
                     else p) ps)"
    and "list_all2 grown ps
           (map (\<lambda>p. if \<not> eliminated p \<and> id_player p \<noteq> sid
                     then p\<lparr>totalScore := js_add (totalScore p) (calculateScore_B (hand p) r)\<rparr>
                     else p) ps)"
proof -
  have a: "\<And>p. p \<in> set ps \<Longrightarrow>
             grown p (p\<lparr>totalScore := js_add (totalScore p) (calculateScore (hand p) r)\<rparr>)"
  proof -
    fix p assume "p \<in> set ps"
    with assms have ok: "player_ok p" by simp
    then obtain s where "0 \<le> s" "calculateScore (hand p) r = Fin s"
      using score_nonneg(1) [of "hand p" r] by (auto simp add: player_ok_def)
    with grown_add [OF ok] show "grown p (p\<lparr>totalScore := js_add (totalScore p) (calculateScore (hand p) r)\<rparr>)"
      by simp
  qed
  have b: "\<And>p. p \<in> set ps \<Longrightarrow>
             grown p (p\<lparr>totalScore := js_add (totalScore p) (calculateScore_B (hand p) r)\<rparr>)"
  proof -
    fix p assume "p \<in> set ps"
    with assms have ok: "player_ok p" by simp
    then obtain s where "0 \<le> s" "calculateScore_B (hand p) r = Fin s"
      using score_nonneg(2) [of "hand p" r] by (auto simp add: player_ok_def)
    with grown_add [OF ok] show "grown p (p\<lparr>totalScore := js_add (totalScore p) (calculateScore_B (hand p) r)\<rparr>)"
      by simp
  qed
  show "list_all2 grown ps
           (map (\<lambda>p. if \<not> eliminated p \<and> id_player p \<noteq> sid
                     then p\<lparr>totalScore := js_add (totalScore p) (calculateScore (hand p) r)\<rparr>
                     else p) ps)"
    using assms a by (intro list_all2_map_self) (simp add: grown_refl)
  show "list_all2 grown ps
           (map (\<lambda>p. if \<not> eliminated p \<and> id_player p \<noteq> sid
                     then p\<lparr>totalScore := js_add (totalScore p) (calculateScore_B (hand p) r)\<rparr>
                     else p) ps)"
    using assms b by (intro list_all2_map_self) (simp add: grown_refl)
qed

lemma penalty_grown:
  assumes "\<forall>p \<in> set ps. player_ok p" and "0 \<le> s"
  shows "list_all2 grown ps
           (update_first (\<lambda>p. id_player p = sid)
              (\<lambda>p. p\<lparr>totalScore := js_add (totalScore p) (Fin s)\<rparr>) ps)"
  using assms by (intro list_all2_update_first) (simp add: grown_refl grown_add)

lemma Math_max_pair: "Math_max [Fin a, Fin b] = Fin (max a b)"
  by (simp add: Math_max_def max_def)

lemma grown_flagged: "grown p q \<Longrightarrow> flagged q q' \<Longrightarrow> grown p q'"
  by (auto simp add: grown_def flagged_def player_ok_def)

lemma round_and_elimination_flagged:
  "list_all2 flagged (players room) (players (round_and_elimination room))"
  by (simp add: round_and_elimination_def Let_def list_all2_map2 list_all2_same flagged_def)

lemma list_all2_list_update_self:
  assumes "R (xs ! i) y" and "\<forall>x \<in> set xs. R x x"
  shows "list_all2 R xs (xs[i := y])"
proof -
  have "\<And>j. j < length xs \<Longrightarrow> R (xs ! j) (xs[i := y] ! j)"
  proof -
    fix j assume j: "j < length xs"
    then have "R (xs ! j) (xs ! j)" using assms(2) by simp
    with assms(1) j show "R (xs ! j) (xs[i := y] ! j)"
      by (cases "j = i") simp_all
  qed
  then show ?thesis by (simp add: list_all2_conv_all_nth)
qed

lemma round_and_elimination_B_flagged:
  "list_all2 flagged (players room) (players (snd (round_and_elimination_B room)))"
  by (auto simp add: round_and_elimination_B_def list_all2_same flagged_def
      intro!: list_all2_list_update_self split: option.splits)

lemma round_and_elimination_deck: "deck (round_and_elimination room) = deck room"
  by (simp add: round_and_elimination_def Let_def)

lemma round_and_elimination_B_deck: "deck (snd (round_and_elimination_B room)) = deck room"
  by (simp add: round_and_elimination_B_def split: option.splits)


lemma declare_show_Inr:
  assumes "declare_show sid room = Inr res"
  obtains oj c where "openJoker room = Some oj"
    and "find (\<lambda>p. \<not> eliminated p \<and> id_player p = sid) (players room) = Some c"
proof -
  from assms obtain oj where oj: "openJoker room = Some oj"
    by (cases "openJoker room") (simp_all add: declare_show_def)
  from assms oj obtain c where
    "find (\<lambda>p. \<not> eliminated p \<and> id_player p = sid) (players room) = Some c"
    by (cases "find (\<lambda>p. \<not> eliminated p \<and> id_player p = sid) (players room)")
      (simp_all add: declare_show_def find_scores)
  with oj that show thesis by blast
qed

lemma declare_show_B_Inr:
  assumes "declare_show_B sid room = Inr res"
  obtains oj c where "openJoker room = Some oj"
    and "find (\<lambda>p. \<not> eliminated p \<and> id_player p = sid) (players room) = Some c"
proof -
  from assms obtain oj where oj: "openJoker room = Some oj"
    by (cases "openJoker room") (simp_all add: declare_show_B_def)
  from assms oj obtain c where
    "find (\<lambda>p. \<not> eliminated p \<and> id_player p = sid) (players room) = Some c"
    by (cases "find (\<lambda>p. \<not> eliminated p \<and> id_player p = sid) (players room)")
      (simp_all add: declare_show_B_def find_scores)
  with oj that show thesis by blast
qed

lemma declare_show_grown:
  assumes ok: "room_ok room" and res: "declare_show sid room = Inr (sigs, room')"
  shows "list_all2 grown (players room) (players room')" and "deck room' = deck room"
proof -
  from res obtain oj c where oj: "openJoker room = Some oj"
    and c: "find (\<lambda>p. \<not> eliminated p \<and> id_player p = sid) (players room) = Some c"
    by (rule declare_show_Inr)
  have oks: "\<forall>p \<in> set (players room). player_ok p" using ok by (simp add: room_ok_def)
  from c have "c \<in> set (players room)" by (auto simp add: find_Some_iff)
  with oks obtain s where s: "0 \<le> s" "calculateScore (hand c) (rank oj) = Fin s"
    using score_nonneg(1) [of "hand c" "rank oj"] by (auto simp add: player_ok_def)
  let ?win = "map (\<lambda>p. if \<not> eliminated p \<and> id_player p \<noteq> sid
                 then p\<lparr>totalScore := js_add (totalScore p) (calculateScore (hand p) (rank oj))\<rparr>
                 else p) (players room)"
  let ?lose = "update_first (\<lambda>p. id_player p = sid)
                 (\<lambda>p. p\<lparr>totalScore := js_add (totalScore p) (Fin (s + 25))\<rparr>) (players room)"
  from res have "room' = round_and_elimination (room\<lparr>players := ?win\<rparr>)
               \<or> room' = round_and_elimination (room\<lparr>players := ?lose\<rparr>)"
    unfolding declare_show_unfold [OF oj c] s(2) by (auto split: if_splits)
  then obtain ps where ps: "room' = round_and_elimination (room\<lparr>players := ps\<rparr>)"
    and g: "list_all2 grown (players room) ps"
    using success_grown(1) [OF oks] penalty_grown [OF oks, of "s + 25"] s(1) by auto
  have "list_all2 flagged ps (players room')"
    unfolding ps using round_and_elimination_flagged [of "room\<lparr>players := ps\<rparr>"] by simp
  with g show "list_all2 grown (players room) (players room')"
    by (rule list_all2_trans [rotated]) (rule grown_flagged)
  show "deck room' = deck room" unfolding ps by (simp add: round_and_elimination_deck)
qed

lemma declare_show_B_grown:
  assumes ok: "room_ok room" and res: "declare_show_B sid room = Inr (sigs, room')"
  shows "list_all2 grown (players room) (players room')" and "deck room' = deck room"
proof -
  from res obtain oj c where oj: "openJoker room = Some oj"
    and c: "find (\<lambda>p. \<not> eliminated p \<and> id_player p = sid) (players room) = Some c"
    by (rule declare_show_B_Inr)
  have oks: "\<forall>p \<in> set (players room). player_ok p" using ok by (simp add: room_ok_def)
  from c have "c \<in> set (players room)" by (auto simp add: find_Some_iff)
  with oks obtain s where s: "0 \<le> s" "calculateScore_B (hand c) (rank oj) = Fin s"
    using score_nonneg(2) [of "hand c" "rank oj"] by (auto simp add: player_ok_def)
  let ?win = "map (\<lambda>p. if \<not> eliminated p \<and> id_player p \<noteq> sid
                 then p\<lparr>totalScore := js_add (totalScore p) (calculateScore_B (hand p) (rank oj))\<rparr>
                 else p) (players room)"
  let ?lose = "update_first (\<lambda>p. id_player p = sid)
                 (\<lambda>p. p\<lparr>totalScore := js_add (totalScore p) (Fin (max s 25))\<rparr>) (players room)"
  from res have "room' = snd (round_and_elimination_B (room\<lparr>players := ?win\<rparr>))
               \<or> room' = snd (round_and_elimination_B (room\<lparr>players := ?lose\<rparr>))"
    unfolding declare_show_B_unfold [OF oj c] s(2) Math_max_pair by (auto split: if_splits)
  then obtain ps where ps: "room' = snd (round_and_elimination_B (room\<lparr>players := ps\<rparr>))"
    and g: "list_all2 grown (players room) ps"
    using success_grown(2) [OF oks] penalty_grown [OF oks, of "max s 25"] s(1) by auto
  have "list_all2 flagged ps (players room')"
    unfolding ps using round_and_elimination_B_flagged [of "room\<lparr>players := ps\<rparr>"] by simp
  with g show "list_all2 grown (players room) (players room')"
    by (rule list_all2_trans [rotated]) (rule grown_flagged)
  show "deck room' = deck room" unfolding ps by (simp add: round_and_elimination_B_deck)
qed

lemma declare_show_ok:
  assumes "room_ok room" and "declare_show sid room = Inr (sigs, room')"
  shows "room_ok room'"
  using declare_show_grown [OF assms] grown_ok assms(1) by (auto simp add: room_ok_def)











lemma registry_okD: "registry_ok rooms \<Longrightarrow> rooms rid = Some room \<Longrightarrow> room_ok room"
  by (simp add: registry_ok_def)

lemma registry_ok_update:
  "registry_ok rooms \<Longrightarrow> room_ok room \<Longrightarrow> registry_ok (rooms(rid \<mapsto> room))"
  by (simp add: registry_ok_def)

lemma step_ok:
  assumes ok: "registry_ok rooms" and g: "sort_permutes g" and st: "step g ev rooms = Inr rooms'"
  shows "registry_ok rooms'"
proof (cases ev)
  case (Create_room rid sid name limit)
  have "room_ok \<lparr>roomId = rid, players = [new_player sid name], deck = [], openJoker = None,
          turn = 0, status = LOBBY, hostId = sid, roundLimit = parse_roundLimit limit,
          currentRound = 1\<rparr>"
    by (simp add: room_ok_def new_player_ok)
  with st ok Create_room show ?thesis
    by (auto simp add: create_room_def intro: registry_ok_update)
next
  case (Join_room rid sid name)
  show ?thesis
  proof (cases "rooms rid")
    case None
    with st ok Join_room show ?thesis by (auto simp add: join_room_def)
  next
    case (Some room)
    from registry_okD [OF ok Some]
    have "room_ok (room\<lparr>players := players room @ [new_player sid name]\<rparr>)"
      by (simp add: room_ok_def new_player_ok)
    with st ok Join_room Some show ?thesis
      by (auto simp add: join_room_def intro: registry_ok_update split: if_splits)
  qed
next
  case (Start_game rid sid)
  show ?thesis
  proof (cases "rooms rid")
    case None
    with st ok Start_game show ?thesis by auto
  next
    case (Some room)
    from start_game_ok [OF registry_okD [OF ok Some] g] st ok Start_game Some
    show ?thesis by (auto intro: registry_ok_update)
  qed
next
  case (Draw_card rid sid)
  show ?thesis
  proof (cases "rooms rid")
    case None
    with st ok Draw_card show ?thesis by auto
  next
    case (Some room)
    with st Draw_card obtain room' where r: "draw_card g sid room = Inr room'"
      "rooms' = rooms(rid \<mapsto> room')"
      by (cases "draw_card g sid room") auto
    from draw_card_ok [OF registry_okD [OF ok Some] g r(1)] ok r(2)
    show ?thesis by (auto intro: registry_ok_update)
  qed
next
  case (Replace_card rid sid cid)
  show ?thesis
  proof (cases "rooms rid")
    case None
    with st ok Replace_card show ?thesis by auto
  next
    case (Some room)
    with st Replace_card obtain room' where r: "replace_card sid cid room = Inr room'"
      "rooms' = rooms(rid \<mapsto> room')"
      by (cases "replace_card sid cid room") auto
    from replace_card_ok [OF registry_okD [OF ok Some] r(1)] ok r(2)
    show ?thesis by (auto intro: registry_ok_update)
  qed
next
  case (Declare_show rid sid)
  show ?thesis
  proof (cases "rooms rid")
    case None
    with st ok Declare_show show ?thesis by auto
  next
    case (Some room)
    with st Declare_show obtain sigs room' where r: "declare_show sid room = Inr (sigs, room')"
      "rooms' = rooms(rid \<mapsto> room')"
      by (cases "declare_show sid room") auto
    from declare_show_ok [OF registry_okD [OF ok Some] r(1)] ok r(2)
    show ?thesis by (auto intro: registry_ok_update)
  qed
next
  case (Disconnect sid)
  with st have r: "rooms' = disconnect sid rooms" by simp
  show ?thesis
    unfolding registry_ok_def r disconnect_def
    using ok by (auto split: option.splits dest: registry_okD disconnect_room_ok)
qed

lemma reachable_ok: "reachable rooms \<Longrightarrow> registry_ok rooms"
proof (induction rule: reachable.induct)
  case initial
  then show ?case by (simp add: registry_ok_def)
next
  case (after_event rooms g ev rooms')
  then show ?case using step_ok by blast
qed



lemma run_reachable:
  "reachable rooms \<Longrightarrow> sort_permutes g \<Longrightarrow> run g evs rooms = Inr rooms' \<Longrightarrow> reachable rooms'"
proof (induction evs arbitrary: rooms)
  case Nil
  then show ?case by simp
next
  case (Cons ev evs)
  from Cons.prems(3) obtain mid where mid: "step g ev rooms = Inr mid" "run g evs mid = Inr rooms'"
    by (cases "step g ev rooms") auto
  from Cons.prems(1,2) mid(1) have "reachable mid" by (rule reachable.after_event)
  from Cons.IH [OF this Cons.prems(2) mid(2)] show ?case .
qed

subsection \<open>The handlers of server.js\<close>

lemma createDeck_B_ok:
  assumes "sort_permutes g" and "c \<in> set (createDeck_B g)"
  shows "data_model_rank (rank c)"
proof -
  from assms have "c \<in> set (ranked_cards g) \<or> c = joker ''Joker1''"
    by (auto simp add: createDeck_B_def sort_permutes_set)
  then show ?thesis
    using ranked_cards_ranks [of g] by (auto simp add: data_model_rank_def joker_def)
qed

lemma deal_B_ok:
  assumes "\<forall>c \<in> set d. data_model_rank (rank c)"
    and "\<forall>p \<in> set ps. player_ok p"
    and "deal_B d ps = (ps', d')"
  shows "(\<forall>p \<in> set ps'. player_ok p) \<and> (\<forall>c \<in> set d'. data_model_rank (rank c))"
  using assms
proof (induction ps arbitrary: d ps' d')
  case Nil
  then show ?case by simp
next
  case (Cons p ps)
  show ?case
  proof (cases "eliminated p")
    case True
    obtain qs e where r: "deal_B d ps = (qs, e)" by (cases "deal_B d ps")
    from Cons.IH [OF Cons.prems(1) _ r] Cons.prems(2)
    have ih: "(\<forall>p \<in> set qs. player_ok p) \<and> (\<forall>c \<in> set e. data_model_rank (rank c))" by simp
    from Cons.prems(3) True r
    have "ps' = p\<lparr>hand := []\<rparr> # qs" "d' = e" by simp_all
    with ih Cons.prems(2) show ?thesis
      by (simp add: player_ok_def data_model_hand_def)
  next
    case False
    obtain c1 d1 where p1: "pop d = (c1, d1)" by (cases "pop d")
    obtain c2 d2 where p2: "pop d1 = (c2, d2)" by (cases "pop d1")
    obtain c3 d3 where p3: "pop d2 = (c3, d3)" by (cases "pop d2")
    obtain qs e where r: "deal_B d3 ps = (qs, e)" by (cases "deal_B d3 ps")
    note o1 = pop_ok [OF Cons.prems(1) p1]
    note o2 = pop_ok [OF o1(1) p2]
    note o3 = pop_ok [OF o2(1) p3]
    from Cons.IH [OF o3(1) _ r] Cons.prems(2)
    have ih: "(\<forall>p \<in> set qs. player_ok p) \<and> (\<forall>c \<in> set e. data_model_rank (rank c))" by simp
    from Cons.prems(3) False p1 p2 p3 r
    have "ps' = p\<lparr>hand := [c1, c2, c3]\<rparr> # qs" "d' = e" by simp_all
    with ih Cons.prems(2) o1(2) o2(2) o3(2) show ?thesis
      by (auto simp add: player_ok_def data_model_hand_def)
  qed
qed


lemma start_game_B_ok:
  assumes "room_ok room" and "sort_permutes g"
  shows "room_ok (start_game_B g sid room)"
proof (cases "hostId room = sid")
  case False
  with assms(1) show ?thesis by (simp add: start_game_B_def)
next
  case True
  obtain oj d1 where p: "pop (createDeck_B g) = (oj, d1)" by (cases "pop (createDeck_B g)")
  obtain ps d2 where d: "deal_B d1 (players room) = (ps, d2)"
    by (cases "deal_B d1 (players room)")
  have deck: "\<forall>c \<in> set (createDeck_B g). data_model_rank (rank c)"
    using createDeck_B_ok [OF assms(2)] by blast
  have oks: "\<forall>p \<in> set (players room). player_ok p"
    using assms(1) by (simp add: room_ok_def)
  from deal_B_ok [OF pop_ok(1) [OF deck p] oks d] True p d show ?thesis
    by (simp add: start_game_B_def room_ok_def)
qed


lemma draw_card_B_players:
  assumes "draw_card_B sid room = Inr room'"
  shows "players room' = players room" and "set (deck room') \<subseteq> set (deck room)"
  using assms
  by (auto simp add: draw_card_B_def pop_def split: option.splits if_splits prod.splits
      dest: in_set_butlastD)

lemma draw_card_B_ok:
  assumes "room_ok room" and "draw_card_B sid room = Inr room'"
  shows "room_ok room'"
  using assms(1) draw_card_B_players [OF assms(2)] by (auto simp add: room_ok_def)

lemma swap_card_B_ok:
  assumes "data_model_hand h" and "\<forall>c. newCard = Some c \<longrightarrow> data_model_rank (rank c)"
    and "swap_card_B cid newCard h = Inr h'"
  shows "data_model_hand h'"
  using assms by (auto simp add: swap_card_B_def data_model_hand_def split: if_splits)

lemma replace_card_B_Inr:
  assumes "replace_card_B sid cid newCard room = Some (Inr room')"
  obtains pl h nt where "find (\<lambda>p. id_player p = sid) (players room) = Some pl"
    and "swap_card_B cid newCard (hand pl) = Inr h"
    and "room' = room\<lparr>players := update_first (\<lambda>p. id_player p = sid) (\<lambda>p. p\<lparr>hand := h\<rparr>)
                                   (players room), turn := nt\<rparr>"
  using assms
  by (auto simp add: replace_card_B_def Let_def split: option.splits sum.splits)

lemma replace_card_B_ok:
  assumes "room_ok room" and "\<forall>c. newCard = Some c \<longrightarrow> data_model_rank (rank c)"
    and "replace_card_B sid cid newCard room = Some (Inr room')"
  shows "room_ok room'"
proof -
  from assms(3) obtain pl h nt where pl: "find (\<lambda>p. id_player p = sid) (players room) = Some pl"
    and h: "swap_card_B cid newCard (hand pl) = Inr h"
    and r: "room' = room\<lparr>players := update_first (\<lambda>p. id_player p = sid) (\<lambda>p. p\<lparr>hand := h\<rparr>)
                                     (players room), turn := nt\<rparr>"
    by (rule replace_card_B_Inr)
  from pl have "pl \<in> set (players room)" by (auto simp add: find_Some_iff)
  with assms(1) have "player_ok pl" by (simp add: room_ok_def)
  then have "data_model_hand h"
    using swap_card_B_ok [OF _ assms(2) h] by (simp add: player_ok_def)
  then have "\<And>q. q \<in> set (players room) \<Longrightarrow> player_ok (q\<lparr>hand := h\<rparr>)"
    using assms(1) by (simp add: room_ok_def player_ok_def)
  then have "\<forall>q \<in> set (players room'). player_ok q"
    using assms(1) unfolding r by (auto simp add: room_ok_def dest!: update_first_set)
  with assms(1) show ?thesis unfolding r room_ok_def by simp
qed


lemma declare_show_B_ok:
  assumes "room_ok room" and "declare_show_B sid room = Inr (sigs, room')"
  shows "room_ok room'"
  using declare_show_B_grown [OF assms] grown_ok assms(1) by (auto simp add: room_ok_def)

lemma step_B_ok:
  assumes ok: "registry_ok rooms" and g: "sort_permutes g" and cl: "client_card_ok ev"
    and st: "step_B g ev rooms = Some (Inr rooms')"
  shows "registry_ok rooms'"
proof (cases ev)
  case (Create_room_B rid sid name limit)
  have "room_ok \<lparr>roomId = rid, players = [new_player sid name], deck = [], openJoker = None,
          turn = 0, status = LOBBY, hostId = sid, roundLimit = parse_roundLimit limit,
          currentRound = 1\<rparr>"
    by (simp add: room_ok_def new_player_ok)
  with st ok Create_room_B show ?thesis
    by (auto simp add: create_room_B_def intro: registry_ok_update)
next
  case (Join_room_B rid sid name)
  show ?thesis
  proof (cases "rooms rid")
    case None
    with st ok Join_room_B show ?thesis by (auto simp add: join_room_B_def)
  next
    case (Some room)
    from registry_okD [OF ok Some]
    have "room_ok (room\<lparr>players := players room @ [new_player sid name]\<rparr>)"
      by (simp add: room_ok_def new_player_ok)
    with st ok Join_room_B Some show ?thesis
      by (auto simp add: join_room_B_def intro: registry_ok_update split: if_splits)
  qed
next
  case (Start_game_B rid sid)
  show ?thesis
  proof (cases "rooms rid")
    case None
    with st ok Start_game_B show ?thesis by auto
  next
    case (Some room)
    from start_game_B_ok [OF registry_okD [OF ok Some] g] st ok Start_game_B Some
    show ?thesis by (auto intro: registry_ok_update)
  qed
next
  case (Draw_card_B rid sid)
  show ?thesis
  proof (cases "rooms rid")
    case None
    with st ok Draw_card_B show ?thesis by auto
  next
    case (Some room)
    with st Draw_card_B obtain room' where r: "draw_card_B sid room = Inr room'"
      "rooms' = rooms(rid \<mapsto> room')"
      by (cases "draw_card_B sid room") auto
    from draw_card_B_ok [OF registry_okD [OF ok Some] r(1)] ok r(2)
    show ?thesis by (auto intro: registry_ok_update)
  qed
next
  case (Replace_card_B rid sid cid newCard)
  show ?thesis
  proof (cases "rooms rid")
    case None
    with st ok Replace_card_B show ?thesis by auto
  next
    case (Some room)
    with st Replace_card_B obtain room' where
      r: "replace_card_B sid cid newCard room = Some (Inr room')" "rooms' = rooms(rid \<mapsto> room')"
      by (auto split: option.splits sum.splits)
    from cl Replace_card_B have "\<forall>c. newCard = Some c \<longrightarrow> data_model_rank (rank c)"
      by (simp add: client_card_ok_def split: option.splits)
    from replace_card_B_ok [OF registry_okD [OF ok Some] this r(1)] ok r(2)
    show ?thesis by (auto intro: registry_ok_update)
  qed
next
  case (Declare_show_B rid sid)
  show ?thesis
  proof (cases "rooms rid")
    case None
    with st ok Declare_show_B show ?thesis by auto
  next
    case (Some room)
    with st Declare_show_B obtain sigs room' where
      r: "declare_show_B sid room = Inr (sigs, room')" "rooms' = rooms(rid \<mapsto> room')"
      by (cases "declare_show_B sid room") auto
    from declare_show_B_ok [OF registry_okD [OF ok Some] r(1)] ok r(2)
    show ?thesis by (auto intro: registry_ok_update)
  qed
next
  case (Disconnecting_B sid joined)
  with st have r: "rooms' = disconnecting_B sid joined rooms" by simp
  show ?thesis
    unfolding registry_ok_def r disconnecting_B_def
    using ok by (auto simp add: Let_def room_ok_def split: option.splits if_splits
        dest!: registry_okD)
qed

lemma reachable_B_ok: "reachable_B rooms \<Longrightarrow> registry_ok rooms"
proof (induction rule: reachable_B.induct)
  case initial_B
  then show ?case by (simp add: registry_ok_def)
next
  case (after_event_B rooms g ev rooms')
  then show ?case using step_B_ok by blast
qed



lemma run_B_reachable:
  "reachable_B rooms \<Longrightarrow> sort_permutes g \<Longrightarrow> list_all client_card_ok evs \<Longrightarrow>
   run_B g evs rooms = Some (Inr rooms') \<Longrightarrow> reachable_B rooms'"
proof (induction evs arbitrary: rooms)
  case Nil
  then show ?case by simp
next
  case (Cons ev evs)
  from Cons.prems(4) obtain mid where
    mid: "step_B g ev rooms = Some (Inr mid)" "run_B g evs mid = Some (Inr rooms')"
    by (auto split: option.splits sum.splits)
  from Cons.prems(3) have cl: "client_card_ok ev" "list_all client_card_ok evs" by simp_all
  from Cons.prems(1,2) cl(1) mid(1) have "reachable_B mid" by (rule reachable_B.after_event_B)
  from Cons.IH [OF this Cons.prems(2) cl(2) mid(2)] show ?case .
qed

lemma returnedD: "returned r \<Longrightarrow> r = Some (Inr (projr (the r)))"
  by (auto simp add: returned_def split: option.splits sum.splits)

subsection \<open>The claim\<close>




text \<open>
  What \<open>server.js\<close> does with another card is not part of the amended claim. The card
  is stored in the hand as it comes: in \<open>lowered_game\<close> both clients sent a card of a
  negative rank, and the show of alice, who scores -193 against -87, takes the total of
  bob from 0 to -87.
\<close>

lemma client_cards_lower_a_total:
  "show_view lowered_game ''R4ZQ'' ''s1''
     = Some ([''s1'', ''s2''], [Fin 0, Fin 0],
             Inr ([Celebration, Room_data], [Fin 0, Fin (- 87)]))"
  by code_simp

section \<open>The only active player, in a run\<close>

text \<open>
  In a run the hands hold cards of the data model: always in the first variant, where the
  cards of a hand come from the deck, and in \<open>server.js\<close> as long as the clients send
  such cards. There the show of the only active player of a started room succeeds, the
  celebration is signalled and no total changes.
\<close>

theorem declare_show_sole_active_in_a_run:
  assumes r: "rooms rid = Some room"
    and oj: "openJoker room = Some oj"
    and c: "find (\<lambda>p. \<not> eliminated p \<and> id_player p = sid) (players room) = Some c"
    and alone: "\<forall>q \<in> set (players room). \<not> eliminated q \<longrightarrow> id_player q = sid"
  shows "(reachable rooms \<longrightarrow>
            (\<exists>room'. declare_show sid room = Inr ([Celebration, Room_data], room')
               \<and> map totalScore (players room') = map totalScore (players room)))
       \<and> (reachable_B rooms \<longrightarrow>
            (\<exists>sigs room'. declare_show_B sid room = Inr (Celebration # sigs, room')
               \<and> map totalScore (players room') = map totalScore (players room)))"
proof -
  from c have c_in: "c \<in> set (players room)" by (auto simp add: find_Some_iff)
  have "data_model_hand (hand c)" if "registry_ok rooms"
    using registry_okD [OF that r] c_in by (simp add: room_ok_def player_ok_def)
  then show ?thesis
    using declare_show_sole_active_player [OF oj c alone] reachable_ok reachable_B_ok
    by blast
qed

theorem declare_show_sole_active_in_a_run_witness:
  "reachable short_rooms
   \<and> list_all (\<lambda>q. eliminated q \<or> id_player q = ''s1'') (players (the (short_rooms ''R1ZQ'')))
   \<and> (\<exists>room'. declare_show ''s1'' (the (short_rooms ''R1ZQ''))
                   = Inr ([Celebration, Room_data], room')
         \<and> map totalScore (players room') = [Fin 0, Fin 18])
   \<and> reachable_B lone_rooms
   \<and> list_all (\<lambda>q. eliminated q \<or> id_player q = ''s1'') (players (the (lone_rooms ''R3ZQ'')))
   \<and> (\<exists>sigs room'. declare_show_B ''s1'' (the (lone_rooms ''R3ZQ''))
                        = Inr (Celebration # sigs, room')
         \<and> map totalScore (players room') = [Fin 0])"
proof -
  let ?a = "the (short_rooms ''R1ZQ'')"
  let ?b = "the (lone_rooms ''R3ZQ'')"
  let ?me = "\<lambda>p. \<not> eliminated p \<and> id_player p = ''s1''"
  have p: "sort_permutes sample_rng"
    unfolding sample_rng_def by (rule sort_permutes_rev)
  have "\<not> isl (run sample_rng short_game Map.empty)" by code_simp
  then have "run sample_rng short_game Map.empty = Inr short_rooms"
    unfolding short_rooms_def by simp
  with reachable.initial p have 1: "reachable short_rooms" by (rule run_reachable)
  have "short_rooms ''R1ZQ'' \<noteq> None" by code_simp
  then have a1: "short_rooms ''R1ZQ'' = Some ?a" by simp
  have "openJoker ?a \<noteq> None" by code_simp
  then have a2: "openJoker ?a = Some (the (openJoker ?a))" by simp
  have "find ?me (players ?a) \<noteq> None" by code_simp
  then have a3: "find ?me (players ?a) = Some (the (find ?me (players ?a)))" by simp
  have 2: "list_all (\<lambda>q. eliminated q \<or> id_player q = ''s1'') (players ?a)" by code_simp
  then have a4: "\<forall>q \<in> set (players ?a). \<not> eliminated q \<longrightarrow> id_player q = ''s1''"
    by (auto simp add: list_all_iff)
  have a5: "map totalScore (players ?a) = [Fin 0, Fin 18]" by code_simp
  from declare_show_sole_active_in_a_run
         [where rooms = short_rooms and room = ?a and sid = "''s1''", OF a1 a2 a3 a4] 1
  have 3: "\<exists>room'. declare_show ''s1'' ?a = Inr ([Celebration, Room_data], room')
             \<and> map totalScore (players room') = [Fin 0, Fin 18]"
    unfolding a5 by blast
  have "returned (run_B sample_rng lone_game Map.empty)" by code_simp
  then have run: "run_B sample_rng lone_game Map.empty = Some (Inr lone_rooms)"
    unfolding lone_rooms_def by (rule returnedD)
  have "list_all client_card_ok lone_game"
    by (simp add: lone_game_def client_card_ok_def)
  with reachable_B.initial_B p have 4: "reachable_B lone_rooms"
    using run by (rule run_B_reachable)
  have "lone_rooms ''R3ZQ'' \<noteq> None" by code_simp
  then have b1: "lone_rooms ''R3ZQ'' = Some ?b" by simp
  have "openJoker ?b \<noteq> None" by code_simp
  then have b2: "openJoker ?b = Some (the (openJoker ?b))" by simp
  have "find ?me (players ?b) \<noteq> None" by code_simp
  then have b3: "find ?me (players ?b) = Some (the (find ?me (players ?b)))" by simp
  have 5: "list_all (\<lambda>q. eliminated q \<or> id_player q = ''s1'') (players ?b)" by code_simp
  then have b4: "\<forall>q \<in> set (players ?b). \<not> eliminated q \<longrightarrow> id_player q = ''s1''"
    by (auto simp add: list_all_iff)
  have b5: "map totalScore (players ?b) = [Fin 0]" by code_simp
  from declare_show_sole_active_in_a_run
         [where rooms = lone_rooms and room = ?b and sid = "''s1''", OF b1 b2 b3 b4] 4
  have 6: "\<exists>sigs room'. declare_show_B ''s1'' ?b = Inr (Celebration # sigs, room')
             \<and> map totalScore (players room') = [Fin 0]"
    unfolding b5 by blast
  from 1 2 3 4 5 6 show ?thesis by (intro conjI)
qed

text \<open>
  \<^bold>\<open>Claim C10\<close> is what \<open>declare_show\<close> does in every run of the first variant, where
  the server keeps the drawn card, and not what \<open>server.js\<close> does when the client of the
  only active player has sent a card that no deck holds. In \<open>forged_game\<close> alice, alone
  in the room, holds a card of rank x, which the client sent in \<open>replace_card\<close>: the
  score is \<open>NaN\<close>, the test \<open>NaN < Infinity\<close> fails, no celebration is signalled and
  the total of alice becomes \<open>NaN\<close>. Without that card, in \<open>lone_game\<close>, the show
  succeeds.
\<close>

theorem declare_show_B_sole_caller_fails:
  "show_view forged_game ''R3ZQ'' ''s1'' = Some ([''s1''], [Fin 0], Inr ([Room_data], [NaN]))
   \<and> show_view lone_game ''R3ZQ'' ''s1''
       = Some ([''s1''], [Fin 0], Inr ([Celebration, Room_data], [Fin 0]))"
proof -
  have 1: "show_view forged_game ''R3ZQ'' ''s1''
           = Some ([''s1''], [Fin 0], Inr ([Room_data], [NaN]))"
    by code_simp
  have 2: "show_view lone_game ''R3ZQ'' ''s1''
           = Some ([''s1''], [Fin 0], Inr ([Celebration, Room_data], [Fin 0]))"
    by code_simp
  from 1 2 show ?thesis by (intro conjI)
qed

end
